theory Spec2Isabelle
  imports Complex_Main "HOL-Library.Word"
begin

unbundle bit_operations_syntax

section \<open>Data model of SceneBatchCollector.cpp\<close>

text \<open>
  The embedding follows \<^verbatim>\<open>Source/Urho3D/Graphics/SceneBatchCollector.cpp\<close>.
  C++ objects reached through pointers are records (or plain identities where only the
  pointer value is used); a nullable pointer is an \<open>option\<close>. Member names lose their
  trailing underscore, and a member name shared by several structs gets the struct's
  initials as a prefix. \<^verbatim>\<open>unsigned\<close> is a 32-bit word. \<^verbatim>\<open>float\<close> values are only
  ever compared in the modelled code, never computed with; they are reals here, so the
  model says nothing about NaN.
\<close>

type_synonym u32 = "32 word"

text \<open>\<^verbatim>\<open>M_MAX_UNSIGNED\<close> (Math/MathDefs.h): the largest \<^verbatim>\<open>unsigned\<close>.\<close>

definition M_MAX_UNSIGNED :: u32 where
  "M_MAX_UNSIGNED = 0xFFFFFFFF"

text \<open>Undefined behaviour of the C++ (an index past the end of a vector, a null
  pointer dereferenced) and an \<^verbatim>\<open>assert\<close> that fires are results of the model.\<close>

datatype error = OutOfRange | NullPointer | AssertionFailed

definition bind_err :: "error + 'a \<Rightarrow> ('a \<Rightarrow> error + 'b) \<Rightarrow> error + 'b" where
  "bind_err r f = (case r of Inl e \<Rightarrow> Inl e | Inr x \<Rightarrow> f x)"

subsection \<open>Passes, techniques, materials\<close>

text \<open>\<^verbatim>\<open>Pass*\<close>, \<^verbatim>\<open>Geometry*\<close> and \<^verbatim>\<open>PipelineState*\<close>: the code only copies
  and compares these pointers and asks the pointee for its pipeline-state hash, which
  lives in \<open>LiveHashes\<close> below.\<close>

type_synonym Pass = nat
type_synonym Geometry = nat
type_synonym MaterialPtr = nat
type_synonym PipelineState = nat

text \<open>A technique, as far as the collector reads it: \<^verbatim>\<open>IsSupported()\<close> and
  \<^verbatim>\<open>GetPass(index)\<close>. The class is declared in Technique.h; its pass table is a
  parameter here, an association list from pass index to pass.\<close>

record Technique =
  techniqueId :: nat
  isSupported :: bool
  techniquePasses :: "(u32 \<times> Pass) list"

definition GetPass :: "Technique \<Rightarrow> u32 \<Rightarrow> Pass option" where
  "GetPass tech passIndex = map_of (techniquePasses tech) passIndex"

record TechniqueEntry =
  technique :: "Technique option"
  qualityLevel :: int
  te_lodDistance :: real

record Material =
  materialPtr :: MaterialPtr
  techniques :: "TechniqueEntry list"

record SourceBatch =
  sb_geometry :: "Geometry option"
  sb_material :: "Material option"

subsection \<open>Drawables and lights\<close>

datatype LightType = LIGHT_DIRECTIONAL | LIGHT_SPOT | LIGHT_POINT

text \<open>\<^verbatim>\<open>DRAWABLE_GEOMETRY\<close> and \<^verbatim>\<open>DRAWABLE_LIGHT\<close> (Graphics/Drawable.h).\<close>

definition DRAWABLE_GEOMETRY :: u32 where
  "DRAWABLE_GEOMETRY = 0x1"

definition DRAWABLE_LIGHT :: u32 where
  "DRAWABLE_LIGHT = 0x2"

text \<open>
  A drawable as the collector sees it through its accessors, read after
  \<^verbatim>\<open>UpdateBatches(frameInfo)\<close> has refreshed it. \<^verbatim>\<open>Light\<close> derives from
  \<^verbatim>\<open>Drawable\<close> and the code reaches it by \<^verbatim>\<open>static_cast\<close>; the record carries the
  accessors of the \<^verbatim>\<open>Light\<close> part as well, which the code reads only behind the
  \<^verbatim>\<open>DRAWABLE_LIGHT\<close> flag or from the list of visible lights.
  \<open>effectiveColorIsBlack\<close> is \<^verbatim>\<open>GetEffectiveColor().Equals(Color::BLACK)\<close>, and
  \<open>intensityDivisor\<close> is \<^verbatim>\<open>GetIntensityDivisor()\<close>.
\<close>

record Drawable =
  drawableIndex :: nat
  drawableFlags :: u32
  drawDistance :: real
  distance :: real
  lodDistance :: real
  lightMask :: u32
  batches :: "SourceBatch list"
  pipelineStateHash :: u32
  lightType :: LightType
  effectiveColorIsBlack :: bool
  lightMaskEffective :: u32
  intensityDivisor :: real

subsection \<open>Scene passes\<close>

datatype ScenePassType = Unlit | ForwardLitBase | ForwardUnlitBase

record ScenePassDescription =
  passType :: ScenePassType
  unlitBasePassName :: string
  litBasePassName :: string
  additionalLightPassName :: string

record IntermediateSceneBatch =
  isb_geometry :: "Drawable option"
  isb_sourceBatchIndex :: nat
  isb_basePass :: "Pass option"
  isb_additionalPass :: "Pass option"

record SceneBatch =
  scb_drawable :: "Drawable option"
  scb_drawableIndex :: nat
  scb_sourceBatchIndex :: nat
  scb_geometry :: "Geometry option"
  scb_material :: "Material option"
  scb_pass :: "Pass option"
  scb_pipelineState :: "PipelineState option"

subsection \<open>Pipeline-state cache\<close>

record SubPassPipelineStateKey =
  key_drawableHash :: u32
  key_geometry :: "Geometry option"
  key_material :: "MaterialPtr option"
  key_pass :: "Pass option"

record SubPassPipelineStateEntry =
  geometryHash :: u32
  materialHash :: u32
  passHash :: u32
  pipelineState :: "PipelineState option"
  invalidated :: bool

text \<open>\<^verbatim>\<open>ea::unordered_map<SubPassPipelineStateKey, SubPassPipelineStateEntry>\<close>.\<close>

type_synonym SubPassPipelineStateCache =
  "SubPassPipelineStateKey \<rightharpoonup> SubPassPipelineStateEntry"

text \<open>What \<^verbatim>\<open>GetPipelineStateHash()\<close> answers right now for each geometry, material
  and pass: the live hashes, which change behind the collector's back.\<close>

record LiveHashes =
  geometryLiveHash :: "Geometry \<Rightarrow> u32"
  materialLiveHash :: "MaterialPtr \<Rightarrow> u32"
  passLiveHash :: "Pass \<Rightarrow> u32"

text \<open>
  Modelled from the spec: \<^verbatim>\<open>ScenePipelineStateFactory\<close> is an interface implemented
  outside this file, the spec's \<^verbatim>\<open>Create(camera, drawable, geometry, material, pass)
  -> PipelineState\<close>. The model's factory is the log of the requests it has served; each
  call compiles a new pipeline state, named by its position in the log.
\<close>

type_synonym CameraPtr = nat

record PipelineStateRequest =
  req_camera :: "CameraPtr option"
  req_drawable :: "Drawable option"
  req_geometry :: "Geometry option"
  req_material :: "MaterialPtr option"
  req_pass :: "Pass option"

type_synonym ScenePipelineStateFactory = "PipelineStateRequest list"

definition CreatePipelineState ::
  "ScenePipelineStateFactory \<Rightarrow> PipelineStateRequest
    \<Rightarrow> PipelineState option \<times> ScenePipelineStateFactory" where
  "CreatePipelineState factory request = (Some (length factory), factory @ [request])"

record SubPassPipelineStateContext =
  ctx_camera :: "CameraPtr option"
  ctx_light :: "Drawable option"

text \<open>
  The comparison both cache functions make, with the short-circuit order of the source:
  \<^verbatim>\<open>key.geometry_->GetPipelineStateHash() != entry.geometryHash_ ||
  key.material_->GetPipelineStateHash() != entry.materialHash_ ||
  key.pass_->GetPipelineStateHash() != entry.passHash_\<close>.
\<close>

definition hashesDiffer ::
  "LiveHashes \<Rightarrow> SubPassPipelineStateKey \<Rightarrow> SubPassPipelineStateEntry \<Rightarrow> error + bool" where
  "hashesDiffer live key entry =
     (case key_geometry key of
        None \<Rightarrow> Inl NullPointer
      | Some g \<Rightarrow>
          if geometryLiveHash live g \<noteq> geometryHash entry then Inr True
          else (case key_material key of
                  None \<Rightarrow> Inl NullPointer
                | Some m \<Rightarrow>
                    if materialLiveHash live m \<noteq> materialHash entry then Inr True
                    else (case key_pass key of
                            None \<Rightarrow> Inl NullPointer
                          | Some p \<Rightarrow> Inr (passLiveHash live p \<noteq> passHash entry))))"

text \<open>
  \<^verbatim>\<open>GetPipelineState\<close> is \<^verbatim>\<open>const\<close> but writes the \<^verbatim>\<open>mutable\<close> flag
  \<^verbatim>\<open>invalidated_\<close>, so it returns the cache as well. Its \<^verbatim>\<open>return false\<close> is the
  null pointer.
\<close>

definition GetPipelineState ::
  "LiveHashes \<Rightarrow> SubPassPipelineStateCache \<Rightarrow> SubPassPipelineStateKey
    \<Rightarrow> error + (PipelineState option \<times> SubPassPipelineStateCache)" where
  "GetPipelineState live cache key =
     (case cache key of
        None \<Rightarrow> Inr (None, cache)
      | Some entry \<Rightarrow>
          if invalidated entry then Inr (None, cache)
          else bind_err (hashesDiffer live key entry) (\<lambda>differ.
            if differ then Inr (None, cache(key \<mapsto> entry\<lparr>invalidated := True\<rparr>))
            else Inr (pipelineState entry, cache)))"

text \<open>A value-initialised \<^verbatim>\<open>SubPassPipelineStateEntry\<close>, which \<^verbatim>\<open>cache_[key]\<close>
  inserts for a key that has no entry.\<close>

definition newEntry :: SubPassPipelineStateEntry where
  "newEntry = \<lparr>geometryHash = 0, materialHash = 0, passHash = 0,
               pipelineState = None, invalidated = False\<rparr>"

definition GetOrCreatePipelineState ::
  "LiveHashes \<Rightarrow> SubPassPipelineStateCache \<Rightarrow> ScenePipelineStateFactory
    \<Rightarrow> Drawable option \<Rightarrow> SubPassPipelineStateKey \<Rightarrow> SubPassPipelineStateContext
    \<Rightarrow> error + (PipelineState option \<times> SubPassPipelineStateCache \<times> ScenePipelineStateFactory)" where
  "GetOrCreatePipelineState live cache factory drawable key factoryContext =
     (let entry = (case cache key of None \<Rightarrow> newEntry | Some e \<Rightarrow> e) in
      bind_err
        (if pipelineState entry = None \<or> invalidated entry then Inr True
         else hashesDiffer live key entry)
        (\<lambda>create.
          if create then
            let (created, factory') =
                  CreatePipelineState factory
                    \<lparr>req_camera = ctx_camera factoryContext, req_drawable = drawable,
                     req_geometry = key_geometry key, req_material = key_material key,
                     req_pass = key_pass key\<rparr>;
                entry' = entry\<lparr>pipelineState := created, invalidated := False\<rparr>
            in Inr (pipelineState entry', cache(key \<mapsto> entry'), factory')
          else Inr (pipelineState entry, cache(key \<mapsto> entry), factory)))"

subsection \<open>Technique resolution\<close>

text \<open>The \<^verbatim>\<open>for\<close> loop of \<^verbatim>\<open>FindTechnique\<close>; \<open>None\<close> when it runs to its end.\<close>

fun FindTechniqueScan :: "int \<Rightarrow> real \<Rightarrow> TechniqueEntry list \<Rightarrow> Technique option" where
  "FindTechniqueScan quality lod [] = None"
| "FindTechniqueScan quality lod (entry # rest) =
     (case technique entry of
        None \<Rightarrow> FindTechniqueScan quality lod rest
      | Some tech \<Rightarrow>
          if \<not> isSupported tech \<or> quality < qualityLevel entry
          then FindTechniqueScan quality lod rest
          else if lod \<ge> te_lodDistance entry then Some tech
          else FindTechniqueScan quality lod rest)"

text \<open>\<^verbatim>\<open>FindTechnique(drawable, material)\<close>; the collector's \<^verbatim>\<open>materialQuality_\<close> is
  the first argument.\<close>

definition FindTechnique :: "int \<Rightarrow> Drawable \<Rightarrow> Material \<Rightarrow> Technique option" where
  "FindTechnique quality drawable material =
     (let techs = techniques material in
      if length techs = 1 then technique (techs ! 0)
      else (case FindTechniqueScan quality (lodDistance drawable) techs of
              Some tech \<Rightarrow> Some tech
            | None \<Rightarrow> if techs \<noteq> [] then technique (last techs) else None))"

subsection \<open>Main light\<close>

text \<open>The first loop of \<^verbatim>\<open>ProcessVisibleLights\<close>, over \<^verbatim>\<open>visibleLights_\<close>, with its
  two variables \<^verbatim>\<open>mainLightScore\<close> and \<^verbatim>\<open>mainLight_\<close>.\<close>

fun FindMainLightLoop ::
  "real \<Rightarrow> Drawable option \<Rightarrow> Drawable list \<Rightarrow> real \<times> Drawable option" where
  "FindMainLightLoop mainLightScore main [] = (mainLightScore, main)"
| "FindMainLightLoop mainLightScore main (light # rest) =
     (if lightType light \<noteq> LIGHT_DIRECTIONAL then FindMainLightLoop mainLightScore main rest
      else
        let score = intensityDivisor light in
        if score > mainLightScore then FindMainLightLoop score (Some light) rest
        else FindMainLightLoop mainLightScore main rest)"

definition FindMainLight :: "Drawable list \<Rightarrow> Drawable option" where
  "FindMainLight lights = snd (FindMainLightLoop 0 None lights)"

subsection \<open>Transient drawable index and the octree\<close>

text \<open>
  Modelled from the spec: \<^verbatim>\<open>TransientDrawableIndex\<close> is declared in a header that is
  not among the sources. Per the spec it holds, for each drawable index, "a trait bitset
  (updated-this-frame, visible-geometry, forward-lit)", and its entries default to no
  traits. The three traits are three distinct bits; \<^verbatim>\<open>Reset(numDrawables)\<close> leaves
  \<open>numDrawables\<close> entries without traits.
\<close>

definition DrawableUpdated :: u32 where
  "DrawableUpdated = 0x1"

definition DrawableVisibleGeometry :: u32 where
  "DrawableVisibleGeometry = 0x2"

definition ForwardLit :: u32 where
  "ForwardLit = 0x4"

definition transient_Reset :: "nat \<Rightarrow> u32 list" where
  "transient_Reset numDrawables = replicate numDrawables 0"

text \<open>\<^verbatim>\<open>traits_[drawableIndex] |= trait\<close>.\<close>

definition orTrait :: "nat \<Rightarrow> u32 \<Rightarrow> u32 list \<Rightarrow> error + u32 list" where
  "orTrait i trait tr =
     (if i < length tr then Inr (tr[i := tr ! i OR trait]) else Inl OutOfRange)"

text \<open>
  Modelled from the spec: the octree is an external collaborator,
  \<^verbatim>\<open>QueryFrustum(frustum, mask) -> [Drawable]\<close> and \<^verbatim>\<open>QuerySphere(sphere, mask) ->
  [Drawable]\<close> with an "inside/partial early-accept optimization for fully-contained
  nodes". \<^verbatim>\<open>Octree::GetDrawables(query)\<close> walks the octants the query's volume touches
  and hands the drawables of each to \<^verbatim>\<open>query.TestDrawables(start, end, inside)\<close>. For
  the frustum of a spot light and the sphere of a point light the record gives the
  sequence of these calls and the volume's own \<^verbatim>\<open>IsInsideFast\<close> test of a drawable's
  bounding box; \<open>numAllDrawables\<close> is \<^verbatim>\<open>GetAllDrawables().size()\<close>.
\<close>

record Octree =
  numAllDrawables :: nat
  frustumOctants :: "Drawable \<Rightarrow> (Drawable list \<times> bool) list"
  frustumIsInsideFast :: "Drawable \<Rightarrow> Drawable \<Rightarrow> bool"
  sphereOctants :: "Drawable \<Rightarrow> (Drawable list \<times> bool) list"
  sphereIsInsideFast :: "Drawable \<Rightarrow> Drawable \<Rightarrow> bool"

text \<open>
  \<^verbatim>\<open>TestDrawables\<close> of \<^verbatim>\<open>PointLightLitGeometriesQuery\<close> and of
  \<^verbatim>\<open>SpotLightLitGeometriesQuery\<close>: the two bodies differ only in the volume
  (\<^verbatim>\<open>sphere_\<close> or \<^verbatim>\<open>frustum_\<close>) whose \<^verbatim>\<open>IsInsideFast\<close> they call, the first
  argument here. \<open>queryMask\<close> is the query's \<^verbatim>\<open>lightMask_\<close>, \<open>result\<close> its
  \<^verbatim>\<open>result_\<close>.
\<close>

fun TestDrawables ::
  "(Drawable \<Rightarrow> bool) \<Rightarrow> u32 list \<Rightarrow> u32 \<Rightarrow> Drawable list \<Rightarrow> bool \<Rightarrow> Drawable list
    \<Rightarrow> error + Drawable list" where
  "TestDrawables isInsideFast tr queryMask [] inside result = Inr result"
| "TestDrawables isInsideFast tr queryMask (drawable # rest) inside result =
     (if drawableIndex drawable < length tr then
        if tr ! drawableIndex drawable AND DrawableVisibleGeometry \<noteq> 0 then
          if lightMask drawable AND queryMask \<noteq> 0 then
            if inside \<or> isInsideFast drawable
            then TestDrawables isInsideFast tr queryMask rest inside (result @ [drawable])
            else TestDrawables isInsideFast tr queryMask rest inside result
          else TestDrawables isInsideFast tr queryMask rest inside result
        else TestDrawables isInsideFast tr queryMask rest inside result
      else Inl OutOfRange)"

text \<open>\<^verbatim>\<open>octree_->GetDrawables(query)\<close>: one \<^verbatim>\<open>TestDrawables\<close> call per octant.\<close>

fun GetDrawables ::
  "(Drawable \<Rightarrow> bool) \<Rightarrow> u32 list \<Rightarrow> u32 \<Rightarrow> (Drawable list \<times> bool) list \<Rightarrow> Drawable list
    \<Rightarrow> error + Drawable list" where
  "GetDrawables isInsideFast tr queryMask [] result = Inr result"
| "GetDrawables isInsideFast tr queryMask ((drawables, inside) # octants) result =
     (case TestDrawables isInsideFast tr queryMask drawables inside result of
        Inl e \<Rightarrow> Inl e
      | Inr result' \<Rightarrow> GetDrawables isInsideFast tr queryMask octants result')"

text \<open>The \<^verbatim>\<open>visibleGeometries_.ForEach\<close> of the directional case.\<close>

fun ForEachVisibleGeometry :: "u32 \<Rightarrow> Drawable list \<Rightarrow> Drawable list \<Rightarrow> Drawable list" where
  "ForEachVisibleGeometry queryMask [] litGeometries = litGeometries"
| "ForEachVisibleGeometry queryMask (drawable # rest) litGeometries =
     (if lightMask drawable AND queryMask \<noteq> 0
      then ForEachVisibleGeometry queryMask rest (litGeometries @ [drawable])
      else ForEachVisibleGeometry queryMask rest litGeometries)"

subsection \<open>ThreadedVector\<close>

text \<open>
  Modelled from the spec: \<^verbatim>\<open>ThreadedVector<T>\<close> (Core/ThreadedVector.h is not among
  the sources) is the spec's "fixed array of per-worker growable buffers plus a single
  concatenation pass": \<^verbatim>\<open>Clear(numThreads)\<close> leaves \<open>numThreads\<close> empty buffers,
  \<^verbatim>\<open>Insert(threadIndex, value)\<close> appends to the buffer of that thread, and
  \<^verbatim>\<open>ForEach\<close>, \<^verbatim>\<open>CopyTo\<close> and \<^verbatim>\<open>Size\<close> see the buffers one after the other.
  Inserting for a thread that has no buffer is out of range.
\<close>

type_synonym 'a ThreadedVector = "'a list list"

definition tv_Clear :: "nat \<Rightarrow> 'a ThreadedVector" where
  "tv_Clear numThreads = replicate numThreads []"

definition tv_Insert :: "nat \<Rightarrow> 'a \<Rightarrow> 'a ThreadedVector \<Rightarrow> error + 'a ThreadedVector" where
  "tv_Insert threadIndex v tv =
     (if threadIndex < length tv then Inr (tv[threadIndex := tv ! threadIndex @ [v]])
      else Inl OutOfRange)"

definition tv_Elements :: "'a ThreadedVector \<Rightarrow> 'a list" where
  "tv_Elements tv = concat tv"

subsection \<open>PassData\<close>

record PassData =
  desc :: ScenePassDescription
  unlitBasePassIndex :: u32
  litBasePassIndex :: u32
  additionalLightPassIndex :: u32
  unlitBatches :: "IntermediateSceneBatch ThreadedVector"
  litBatches :: "IntermediateSceneBatch ThreadedVector"
  unlitBaseSceneBatches :: "SceneBatch list"
  litBaseSceneBatches :: "SceneBatch list"
  unlitPipelineStateCache :: SubPassPipelineStateCache
  litPipelineStateCache :: SubPassPipelineStateCache

definition CheckSubPasses :: "PassData \<Rightarrow> bool \<Rightarrow> bool \<Rightarrow> bool \<Rightarrow> bool" where
  "CheckSubPasses p hasBase hasFirstLight hasAdditionalLight =
     ((unlitBasePassIndex p \<noteq> M_MAX_UNSIGNED) = hasBase
      \<and> (litBasePassIndex p \<noteq> M_MAX_UNSIGNED) = hasFirstLight
      \<and> (additionalLightPassIndex p \<noteq> M_MAX_UNSIGNED) = hasAdditionalLight)"

definition IsValid :: "PassData \<Rightarrow> bool" where
  "IsValid p =
     (case passType (desc p) of
        Unlit \<Rightarrow> CheckSubPasses p True False False
      | ForwardLitBase \<Rightarrow> CheckSubPasses p False True True \<or> CheckSubPasses p True True True
      | ForwardUnlitBase \<Rightarrow> CheckSubPasses p True False True)"

definition CreateIntermediateSceneBatch ::
  "PassData \<Rightarrow> Drawable \<Rightarrow> nat \<Rightarrow> Pass option \<Rightarrow> Pass option \<Rightarrow> Pass option
    \<Rightarrow> IntermediateSceneBatch" where
  "CreateIntermediateSceneBatch p geometry sourceBatchIndex unlitBasePass litBasePass
       additionalLightPass =
     (if passType (desc p) = Unlit \<or> additionalLightPass = None then
        \<lparr>isb_geometry = Some geometry, isb_sourceBatchIndex = sourceBatchIndex,
         isb_basePass = unlitBasePass, isb_additionalPass = None\<rparr>
      else if passType (desc p) = ForwardUnlitBase \<and> unlitBasePass \<noteq> None
              \<and> additionalLightPass \<noteq> None then
        \<lparr>isb_geometry = Some geometry, isb_sourceBatchIndex = sourceBatchIndex,
         isb_basePass = unlitBasePass, isb_additionalPass = additionalLightPass\<rparr>
      else if passType (desc p) = ForwardLitBase \<and> litBasePass \<noteq> None
              \<and> additionalLightPass \<noteq> None then
        \<lparr>isb_geometry = Some geometry, isb_sourceBatchIndex = sourceBatchIndex,
         isb_basePass = litBasePass, isb_additionalPass = additionalLightPass\<rparr>
      else
        \<lparr>isb_geometry = None, isb_sourceBatchIndex = 0,
         isb_basePass = None, isb_additionalPass = None\<rparr>)"

text \<open>\<^verbatim>\<open>PassData::Clear(numThreads)\<close>.\<close>

definition pd_Clear :: "nat \<Rightarrow> PassData \<Rightarrow> PassData" where
  "pd_Clear numThreads p =
     p\<lparr>unlitBatches := tv_Clear numThreads, litBatches := tv_Clear numThreads\<rparr>"

section \<open>The collector and its phases\<close>

text \<open>
  Of the members of \<^verbatim>\<open>SceneBatchCollector\<close> the record keeps those that the modelled
  functions read or write. \<^verbatim>\<open>workQueue_\<close> and \<^verbatim>\<open>renderer_\<close> appear as the values
  the code asks them for. The view-space depth ranges (\<^verbatim>\<open>transient_.zRange_\<close>,
  \<^verbatim>\<open>sceneZRange_\<close>) and the light accumulators (\<^verbatim>\<open>drawableLighting_\<close>) are left
  out: they are floating-point computations on types declared elsewhere, they are indexed
  by the same drawable index as the traits (so they add no out-of-range case), and nothing
  below reads them.
\<close>

record Camera =
  cameraPtr :: CameraPtr
  lowMaterialQuality :: bool

record FrameInfo =
  fi_octree :: Octree
  fi_camera :: Camera

text \<open>\<^verbatim>\<open>baseBatchesLookup_\<close> maps a pass index to the address of a batch list inside
  an element of \<^verbatim>\<open>passes_\<close>: which element, and which of its two lists.
  \<^verbatim>\<open>cachedLightData_\<close> maps a light (a \<^verbatim>\<open>WeakPtr<Light>\<close>) to its
  \<^verbatim>\<open>LightData\<close>, which is the list \<^verbatim>\<open>litGeometries_\<close>; \<^verbatim>\<open>visibleLightsData_\<close>
  holds addresses of these \<^verbatim>\<open>LightData\<close>, here the lights that own them.\<close>

datatype BatchListRef = UnlitBaseSceneBatchesOf nat | LitBaseSceneBatchesOf nat

record SceneBatchCollector =
  workQueueNumThreads :: nat
  rendererMaterialQuality :: int
  rendererDefaultMaterial :: Material
  numThreads :: nat
  pipelineStateFactory :: ScenePipelineStateFactory
  materialQuality :: int
  octree :: Octree
  camera :: Camera
  numDrawables :: nat
  passes :: "PassData list"
  baseBatchesLookup :: "u32 \<rightharpoonup> BatchListRef"
  visibleGeometries :: "Drawable ThreadedVector"
  visibleLightsTemp :: "Drawable ThreadedVector"
  visibleLights :: "Drawable list"
  traits :: "u32 list"
  mainLight :: "Drawable option"
  cachedLightData :: "Drawable \<rightharpoonup> Drawable list"
  visibleLightsData :: "Drawable list"
  sceneBatchesWithoutPipelineStates :: "nat ThreadedVector"

text \<open>\<^verbatim>\<open>QUALITY_LOW\<close> (Graphics/GraphicsDefs.h).\<close>

definition QUALITY_LOW :: int where
  "QUALITY_LOW = 0"

definition InitializeFrame ::
  "FrameInfo \<Rightarrow> ScenePipelineStateFactory \<Rightarrow> SceneBatchCollector \<Rightarrow> SceneBatchCollector" where
  "InitializeFrame frameInfo factory st =
     (let n = workQueueNumThreads st + 1;
          nd = numAllDrawables (fi_octree frameInfo)
      in st\<lparr>numThreads := n,
            pipelineStateFactory := factory,
            materialQuality :=
              (if lowMaterialQuality (fi_camera frameInfo) then QUALITY_LOW
               else rendererMaterialQuality st),
            octree := fi_octree frameInfo,
            camera := fi_camera frameInfo,
            numDrawables := nd,
            visibleGeometries := tv_Clear n,
            visibleLightsTemp := tv_Clear n,
            traits := transient_Reset nd\<rparr>)"

subsection \<open>InitializePasses\<close>

text \<open>
  \<^verbatim>\<open>passes_.resize(numPasses)\<close> keeps the elements that are there and appends
  value-initialised ones. The description of an appended element is overwritten in the
  first statement of the loop, so its value here is never read.
\<close>

definition newPassData :: PassData where
  "newPassData =
     \<lparr>desc = \<lparr>passType = Unlit, unlitBasePassName = [], litBasePassName = [],
              additionalLightPassName = []\<rparr>,
      unlitBasePassIndex = 0, litBasePassIndex = 0, additionalLightPassIndex = 0,
      unlitBatches = [], litBatches = [],
      unlitBaseSceneBatches = [], litBaseSceneBatches = [],
      unlitPipelineStateCache = Map.empty, litPipelineStateCache = Map.empty\<rparr>"

definition resize :: "nat \<Rightarrow> 'a \<Rightarrow> 'a list \<Rightarrow> 'a list" where
  "resize n fresh xs = take n xs @ replicate (n - length xs) fresh"

text \<open>
  The first loop of \<^verbatim>\<open>InitializePasses\<close>. \<^verbatim>\<open>Technique::GetPassIndex\<close> is not
  among the sources and is a parameter. \<^verbatim>\<open>assert(0)\<close> aborts a build with assertions
  (\<open>asserts\<close>) and is no statement at all in a build without them, where the
  \<^verbatim>\<open>continue\<close> after it skips \<^verbatim>\<open>passData.Clear(numThreads_)\<close>.
\<close>

fun InitializePassesLoop ::
  "bool \<Rightarrow> (string \<Rightarrow> u32) \<Rightarrow> nat \<Rightarrow> ScenePassDescription list \<Rightarrow> PassData list
    \<Rightarrow> error + PassData list" where
  "InitializePassesLoop asserts GetPassIndex n (d # ds) (p # ps) =
     (let passData = p\<lparr>desc := d,
                       unlitBasePassIndex := GetPassIndex (unlitBasePassName d),
                       litBasePassIndex := GetPassIndex (litBasePassName d),
                       additionalLightPassIndex := GetPassIndex (additionalLightPassName d)\<rparr>
      in if \<not> IsValid passData then
           if asserts then Inl AssertionFailed
           else (case InitializePassesLoop asserts GetPassIndex n ds ps of
                   Inl e \<Rightarrow> Inl e
                 | Inr ps' \<Rightarrow> Inr (passData # ps'))
         else (case InitializePassesLoop asserts GetPassIndex n ds ps of
                 Inl e \<Rightarrow> Inl e
               | Inr ps' \<Rightarrow> Inr (pd_Clear n passData # ps')))"
| "InitializePassesLoop asserts GetPassIndex n ds ps = Inr ps"

text \<open>The second loop, which fills \<^verbatim>\<open>baseBatchesLookup_\<close>; \<open>i\<close> is the position of
  the pass in \<^verbatim>\<open>passes_\<close>.\<close>

fun RegisterBaseBatches ::
  "nat \<Rightarrow> PassData list \<Rightarrow> (u32 \<rightharpoonup> BatchListRef) \<Rightarrow> (u32 \<rightharpoonup> BatchListRef)" where
  "RegisterBaseBatches i [] lookup = lookup"
| "RegisterBaseBatches i (passData # rest) lookup =
     (let lookup1 = (if unlitBasePassIndex passData \<noteq> M_MAX_UNSIGNED
                     then lookup(unlitBasePassIndex passData \<mapsto> UnlitBaseSceneBatchesOf i)
                     else lookup);
          lookup2 = (if litBasePassIndex passData \<noteq> M_MAX_UNSIGNED
                     then lookup1(litBasePassIndex passData \<mapsto> LitBaseSceneBatchesOf i)
                     else lookup1)
      in RegisterBaseBatches (Suc i) rest lookup2)"

definition InitializePasses ::
  "bool \<Rightarrow> (string \<Rightarrow> u32) \<Rightarrow> ScenePassDescription list \<Rightarrow> SceneBatchCollector
    \<Rightarrow> error + SceneBatchCollector" where
  "InitializePasses asserts GetPassIndex descs st =
     (case InitializePassesLoop asserts GetPassIndex (numThreads st) descs
             (resize (length descs) newPassData (passes st)) of
        Inl e \<Rightarrow> Inl e
      | Inr ps \<Rightarrow>
          Inr (st\<lparr>passes := ps, baseBatchesLookup := RegisterBaseBatches 0 ps Map.empty\<rparr>))"

subsection \<open>UpdateAndCollectSourceBatches\<close>

text \<open>The body of the loop over \<^verbatim>\<open>passes_\<close> ("Fill passes"), for one pass.\<close>

definition FillPass ::
  "nat \<Rightarrow> Drawable \<Rightarrow> nat \<Rightarrow> Technique \<Rightarrow> PassData \<Rightarrow> u32 list
    \<Rightarrow> error + (PassData \<times> u32 list)" where
  "FillPass threadIndex drawable i tech pass tr =
     (let unlitBasePass = GetPass tech (unlitBasePassIndex pass);
          litBasePass = GetPass tech (litBasePassIndex pass);
          additionalLightPass = GetPass tech (additionalLightPassIndex pass);
          sceneBatch = CreateIntermediateSceneBatch pass drawable i
                         unlitBasePass litBasePass additionalLightPass
      in if isb_additionalPass sceneBatch \<noteq> None then
           bind_err (orTrait (drawableIndex drawable) ForwardLit tr) (\<lambda>tr'.
           bind_err (tv_Insert threadIndex sceneBatch (litBatches pass)) (\<lambda>lit.
             Inr (pass\<lparr>litBatches := lit\<rparr>, tr')))
         else if isb_basePass sceneBatch \<noteq> None then
           bind_err (tv_Insert threadIndex sceneBatch (unlitBatches pass)) (\<lambda>unlit.
             Inr (pass\<lparr>unlitBatches := unlit\<rparr>, tr))
         else Inr (pass, tr))"

fun FillPasses ::
  "nat \<Rightarrow> Drawable \<Rightarrow> nat \<Rightarrow> Technique \<Rightarrow> PassData list \<Rightarrow> u32 list
    \<Rightarrow> error + (PassData list \<times> u32 list)" where
  "FillPasses threadIndex drawable i tech [] tr = Inr ([], tr)"
| "FillPasses threadIndex drawable i tech (pass # rest) tr =
     (case FillPass threadIndex drawable i tech pass tr of
        Inl e \<Rightarrow> Inl e
      | Inr (pass', tr') \<Rightarrow>
          (case FillPasses threadIndex drawable i tech rest tr' of
             Inl e \<Rightarrow> Inl e
           | Inr (rest', tr'') \<Rightarrow> Inr (pass' # rest', tr'')))"

text \<open>The loop over the drawable's source batches ("Collect batches"), from index
  \<open>i\<close> on.\<close>

fun CollectSourceBatches ::
  "nat \<Rightarrow> int \<Rightarrow> Material \<Rightarrow> Drawable \<Rightarrow> nat \<Rightarrow> SourceBatch list \<Rightarrow> PassData list \<Rightarrow> u32 list
    \<Rightarrow> error + (PassData list \<times> u32 list)" where
  "CollectSourceBatches threadIndex quality dflt drawable i [] ps tr = Inr (ps, tr)"
| "CollectSourceBatches threadIndex quality dflt drawable i (sourceBatch # rest) ps tr =
     (let material = (case sb_material sourceBatch of Some m \<Rightarrow> m | None \<Rightarrow> dflt) in
      case FindTechnique quality drawable material of
        None \<Rightarrow> CollectSourceBatches threadIndex quality dflt drawable (Suc i) rest ps tr
      | Some tech \<Rightarrow>
          (case FillPasses threadIndex drawable i tech ps tr of
             Inl e \<Rightarrow> Inl e
           | Inr (ps', tr') \<Rightarrow>
               CollectSourceBatches threadIndex quality dflt drawable (Suc i) rest ps' tr'))"

text \<open>
  One iteration of the loop of \<^verbatim>\<open>UpdateAndCollectSourceBatchesForThread\<close>. The
  boolean of the result says whether the iteration left the function through the
  \<^verbatim>\<open>return\<close> under "Skip if too far".
\<close>

definition ProcessDrawable ::
  "nat \<Rightarrow> Drawable \<Rightarrow> SceneBatchCollector \<Rightarrow> error + (bool \<times> SceneBatchCollector)" where
  "ProcessDrawable threadIndex drawable st =
     bind_err (orTrait (drawableIndex drawable) DrawableUpdated (traits st)) (\<lambda>tr1.
       let st1 = st\<lparr>traits := tr1\<rparr>;
           maxDistance = drawDistance drawable
       in if maxDistance > 0 \<and> distance drawable > maxDistance then Inr (True, st1)
          else if drawableFlags drawable AND DRAWABLE_GEOMETRY \<noteq> 0 then
            bind_err (tv_Insert threadIndex drawable (visibleGeometries st1)) (\<lambda>vg.
            bind_err (orTrait (drawableIndex drawable) DrawableVisibleGeometry tr1) (\<lambda>tr2.
            bind_err (CollectSourceBatches threadIndex (materialQuality st1)
                        (rendererDefaultMaterial st1) drawable 0 (batches drawable)
                        (passes st1) tr2) (\<lambda>(ps, tr3).
              Inr (False, st1\<lparr>visibleGeometries := vg, passes := ps, traits := tr3\<rparr>))))
          else if drawableFlags drawable AND DRAWABLE_LIGHT \<noteq> 0 then
            if \<not> effectiveColorIsBlack drawable \<and> lightMaskEffective drawable \<noteq> 0 then
              bind_err (tv_Insert threadIndex drawable (visibleLightsTemp st1)) (\<lambda>vl.
                Inr (False, st1\<lparr>visibleLightsTemp := vl\<rparr>))
            else Inr (False, st1)
          else Inr (False, st1))"

fun UpdateAndCollectSourceBatchesForThread ::
  "nat \<Rightarrow> Drawable list \<Rightarrow> SceneBatchCollector \<Rightarrow> error + SceneBatchCollector" where
  "UpdateAndCollectSourceBatchesForThread threadIndex [] st = Inr st"
| "UpdateAndCollectSourceBatchesForThread threadIndex (drawable # rest) st =
     (case ProcessDrawable threadIndex drawable st of
        Inl e \<Rightarrow> Inl e
      | Inr (returned, st') \<Rightarrow>
          if returned then Inr st'
          else UpdateAndCollectSourceBatchesForThread threadIndex rest st')"

text \<open>
  Modelled from the spec: \<^verbatim>\<open>ForEachParallel(workQueue, threshold, collection, task)\<close>
  is not among the sources. Per the spec it partitions a flat collection "across worker
  tasks with a minimum per-task item-count threshold (small inputs run single-threaded)"
  and joins before it returns. The partition is a parameter: the list of the calls
  \<^verbatim>\<open>task(threadIndex, offset, range)\<close>, in an order in which they take effect. The
  single call \<open>inlineSchedule\<close> is the small input run on the calling thread.
\<close>

type_synonym 'a Schedule = "(nat \<times> nat \<times> 'a list) list"

definition inlineSchedule :: "'a list \<Rightarrow> 'a Schedule" where
  "inlineSchedule xs = [(0, 0, xs)]"

fun ForEachParallel ::
  "(nat \<Rightarrow> nat \<Rightarrow> 'a list \<Rightarrow> 's \<Rightarrow> error + 's) \<Rightarrow> 'a Schedule \<Rightarrow> 's \<Rightarrow> error + 's" where
  "ForEachParallel task [] st = Inr st"
| "ForEachParallel task ((threadIndex, offset, items) # calls) st =
     (case task threadIndex offset items st of
        Inl e \<Rightarrow> Inl e
      | Inr st' \<Rightarrow> ForEachParallel task calls st')"

definition UpdateAndCollectSourceBatches ::
  "Drawable Schedule \<Rightarrow> SceneBatchCollector \<Rightarrow> error + SceneBatchCollector" where
  "UpdateAndCollectSourceBatches schedule st =
     bind_err
       (ForEachParallel
          (\<lambda>threadIndex offset drawablesRange.
             UpdateAndCollectSourceBatchesForThread threadIndex drawablesRange)
          schedule st)
       (\<lambda>st'. Inr (st'\<lparr>visibleLights := tv_Elements (visibleLightsTemp st')\<rparr>))"

subsection \<open>CollectLitGeometries\<close>

text \<open>\<open>litGeometries\<close> is \<^verbatim>\<open>lightData.litGeometries_\<close>, which
  \<^verbatim>\<open>ProcessVisibleLights\<close> has cleared before the call.\<close>

definition CollectLitGeometries ::
  "SceneBatchCollector \<Rightarrow> Drawable \<Rightarrow> Drawable list \<Rightarrow> error + Drawable list" where
  "CollectLitGeometries st light litGeometries =
     (case lightType light of
        LIGHT_SPOT \<Rightarrow>
          GetDrawables (frustumIsInsideFast (octree st) light) (traits st)
            (lightMaskEffective light) (frustumOctants (octree st) light) litGeometries
      | LIGHT_POINT \<Rightarrow>
          GetDrawables (sphereIsInsideFast (octree st) light) (traits st)
            (lightMaskEffective light) (sphereOctants (octree st) light) litGeometries
      | LIGHT_DIRECTIONAL \<Rightarrow>
          Inr (ForEachVisibleGeometry (lightMask light)
                 (tv_Elements (visibleGeometries st)) litGeometries))"

subsection \<open>ProcessVisibleLights\<close>

text \<open>The second loop of \<^verbatim>\<open>ProcessVisibleLights\<close> ("Allocate internal storage for
  lights"): the light's \<^verbatim>\<open>LightData\<close> is created when the cache has none, cleared, and
  its address appended to \<^verbatim>\<open>visibleLightsData_\<close>.\<close>

fun AllocateLightData ::
  "Drawable list \<Rightarrow> (Drawable \<rightharpoonup> Drawable list) \<Rightarrow> Drawable list
    \<Rightarrow> (Drawable \<rightharpoonup> Drawable list) \<times> Drawable list" where
  "AllocateLightData [] cached lightsData = (cached, lightsData)"
| "AllocateLightData (light # rest) cached lightsData =
     AllocateLightData rest (cached(light \<mapsto> [])) (lightsData @ [light])"

text \<open>The third loop ("Process lights in worker threads"): one work item per light,
  completed before the next is added, which runs \<^verbatim>\<open>ProcessLightThreaded\<close>, that is
  \<^verbatim>\<open>CollectLitGeometries\<close>, on \<^verbatim>\<open>visibleLights_[i]\<close> and
  \<^verbatim>\<open>*visibleLightsData_[i]\<close>.\<close>

fun ProcessLights ::
  "SceneBatchCollector \<Rightarrow> Drawable list \<Rightarrow> Drawable list \<Rightarrow> (Drawable \<rightharpoonup> Drawable list)
    \<Rightarrow> error + (Drawable \<rightharpoonup> Drawable list)" where
  "ProcessLights st (light # lights) (lightData # lightsData) cached =
     (case cached lightData of
        None \<Rightarrow> Inl NullPointer
      | Some litGeometries \<Rightarrow>
          (case CollectLitGeometries st light litGeometries of
             Inl e \<Rightarrow> Inl e
           | Inr lit \<Rightarrow> ProcessLights st lights lightsData (cached(lightData \<mapsto> lit))))"
| "ProcessLights st lights lightsData cached = Inr cached"

text \<open>
  \<^verbatim>\<open>ProcessVisibleLights\<close>, up to its last loop. That loop
  (\<^verbatim>\<open>AccumulateForwardLighting\<close>) feeds the light accumulators, which the model leaves
  out, and writes nothing else.
\<close>

definition ProcessVisibleLights :: "SceneBatchCollector \<Rightarrow> error + SceneBatchCollector" where
  "ProcessVisibleLights st =
     (let st1 = st\<lparr>mainLight := FindMainLight (visibleLights st)\<rparr>;
          (cached, lightsData) = AllocateLightData (visibleLights st1) (cachedLightData st1) []
      in case ProcessLights st1 (visibleLights st1) lightsData cached of
           Inl e \<Rightarrow> Inl e
         | Inr cached' \<Rightarrow>
             Inr (st1\<lparr>cachedLightData := cached', visibleLightsData := lightsData\<rparr>))"

subsection \<open>CollectSceneBatches\<close>

text \<open>The constructor \<^verbatim>\<open>SubPassPipelineStateKey(const SceneBatch&)\<close>, which reads the
  drawable's pipeline-state hash through \<^verbatim>\<open>sceneBatch.drawable_\<close>.\<close>

definition KeyOfSceneBatch :: "SceneBatch \<Rightarrow> error + SubPassPipelineStateKey" where
  "KeyOfSceneBatch sceneBatch =
     (case scb_drawable sceneBatch of
        None \<Rightarrow> Inl NullPointer
      | Some drawable \<Rightarrow>
          Inr \<lparr>key_drawableHash = pipelineStateHash drawable,
               key_geometry = scb_geometry sceneBatch,
               key_material = map_option materialPtr (scb_material sceneBatch),
               key_pass = scb_pass sceneBatch\<rparr>)"

text \<open>A value-initialised \<^verbatim>\<open>SceneBatch\<close>, which \<^verbatim>\<open>sceneBatches.resize\<close> appends.\<close>

definition newSceneBatch :: SceneBatch where
  "newSceneBatch =
     \<lparr>scb_drawable = None, scb_drawableIndex = 0, scb_sourceBatchIndex = 0,
      scb_geometry = None, scb_material = None, scb_pass = None,
      scb_pipelineState = None\<rparr>"

text \<open>
  The body of the loop in the task of \<^verbatim>\<open>CollectSceneBaseBatches\<close>, for the
  intermediate batch that lands at position \<open>pos\<close> (\<^verbatim>\<open>i + offset\<close>) of
  \<^verbatim>\<open>sceneBatches\<close>. The queue of batches without a pipeline state holds
  \<^verbatim>\<open>&sceneBatch\<close>, here the position.
\<close>

definition AssembleBatch ::
  "LiveHashes \<Rightarrow> Material \<Rightarrow> nat \<Rightarrow> nat \<Rightarrow> IntermediateSceneBatch
    \<Rightarrow> SubPassPipelineStateCache \<times> SceneBatch list \<times> nat ThreadedVector
    \<Rightarrow> error + (SubPassPipelineStateCache \<times> SceneBatch list \<times> nat ThreadedVector)" where
  "AssembleBatch live dflt threadIndex pos intermediateBatch s =
     (case s of (cache, sceneBatches, missing) \<Rightarrow>
        if pos \<ge> length sceneBatches then Inl OutOfRange
        else (case isb_geometry intermediateBatch of
                None \<Rightarrow> Inl NullPointer
              | Some drawable \<Rightarrow>
                  if isb_sourceBatchIndex intermediateBatch \<ge> length (batches drawable)
                  then Inl OutOfRange
                  else
                    let sourceBatch = batches drawable ! isb_sourceBatchIndex intermediateBatch;
                        sceneBatch =
                          \<lparr>scb_drawable = Some drawable,
                           scb_drawableIndex = drawableIndex drawable,
                           scb_sourceBatchIndex = isb_sourceBatchIndex intermediateBatch,
                           scb_geometry = sb_geometry sourceBatch,
                           scb_material =
                             Some (case sb_material sourceBatch of Some m \<Rightarrow> m | None \<Rightarrow> dflt),
                           scb_pass = isb_basePass intermediateBatch,
                           scb_pipelineState = scb_pipelineState (sceneBatches ! pos)\<rparr>
                    in bind_err (KeyOfSceneBatch sceneBatch) (\<lambda>key.
                       bind_err (GetPipelineState live cache key) (\<lambda>(found, cache').
                       bind_err (if found = None then tv_Insert threadIndex pos missing
                                 else Inr missing) (\<lambda>missing'.
                         Inr (cache',
                              sceneBatches[pos := sceneBatch\<lparr>scb_pipelineState := found\<rparr>],
                              missing'))))))"

fun AssembleRange ::
  "LiveHashes \<Rightarrow> Material \<Rightarrow> nat \<Rightarrow> nat \<Rightarrow> IntermediateSceneBatch list
    \<Rightarrow> SubPassPipelineStateCache \<times> SceneBatch list \<times> nat ThreadedVector
    \<Rightarrow> error + (SubPassPipelineStateCache \<times> SceneBatch list \<times> nat ThreadedVector)" where
  "AssembleRange live dflt threadIndex pos [] s = Inr s"
| "AssembleRange live dflt threadIndex pos (intermediateBatch # rest) s =
     (case AssembleBatch live dflt threadIndex pos intermediateBatch s of
        Inl e \<Rightarrow> Inl e
      | Inr s' \<Rightarrow> AssembleRange live dflt threadIndex (Suc pos) rest s')"

text \<open>The body of \<^verbatim>\<open>sceneBatchesWithoutPipelineStates_.ForEach\<close>, for the scene batch
  at position \<open>pos\<close>.\<close>

definition FillPipelineState ::
  "LiveHashes \<Rightarrow> SubPassPipelineStateContext \<Rightarrow> nat
    \<Rightarrow> SubPassPipelineStateCache \<times> SceneBatch list \<times> ScenePipelineStateFactory
    \<Rightarrow> error + (SubPassPipelineStateCache \<times> SceneBatch list \<times> ScenePipelineStateFactory)" where
  "FillPipelineState live subPassContext pos s =
     (case s of (cache, sceneBatches, factory) \<Rightarrow>
        if pos \<ge> length sceneBatches then Inl OutOfRange
        else
          let sceneBatch = sceneBatches ! pos in
          bind_err (KeyOfSceneBatch sceneBatch) (\<lambda>key.
          bind_err (GetOrCreatePipelineState live cache factory (scb_drawable sceneBatch)
                      key subPassContext) (\<lambda>(created, cache', factory').
            Inr (cache',
                 sceneBatches[pos := sceneBatch\<lparr>scb_pipelineState := created\<rparr>],
                 factory'))))"

fun FillPipelineStates ::
  "LiveHashes \<Rightarrow> SubPassPipelineStateContext \<Rightarrow> nat list
    \<Rightarrow> SubPassPipelineStateCache \<times> SceneBatch list \<times> ScenePipelineStateFactory
    \<Rightarrow> error + (SubPassPipelineStateCache \<times> SceneBatch list \<times> ScenePipelineStateFactory)" where
  "FillPipelineStates live subPassContext [] s = Inr s"
| "FillPipelineStates live subPassContext (pos # rest) s =
     (case FillPipelineState live subPassContext pos s of
        Inl e \<Rightarrow> Inl e
      | Inr s' \<Rightarrow> FillPipelineStates live subPassContext rest s')"

text \<open>
  \<^verbatim>\<open>CollectSceneBaseBatches(subPassCache, isLit, intermediateBatches, sceneBatches)\<close>.
  The two reference parameters the function writes, \<^verbatim>\<open>subPassCache\<close> and
  \<^verbatim>\<open>sceneBatches\<close>, are returned with the collector. \<open>schedule\<close> is how
  \<^verbatim>\<open>ForEachParallel\<close> splits the intermediate batches.
\<close>

definition CollectSceneBaseBatches ::
  "LiveHashes \<Rightarrow> (IntermediateSceneBatch list \<Rightarrow> IntermediateSceneBatch Schedule) \<Rightarrow> bool
    \<Rightarrow> IntermediateSceneBatch ThreadedVector
    \<Rightarrow> SubPassPipelineStateCache \<times> SceneBatch list \<times> SceneBatchCollector
    \<Rightarrow> error + (SubPassPipelineStateCache \<times> SceneBatch list \<times> SceneBatchCollector)" where
  "CollectSceneBaseBatches live schedule isLit intermediateBatches s =
     (case s of (subPassCache, sceneBatches, st) \<Rightarrow>
        let missing0 = tv_Clear (numThreads st);
            sceneBatches0 =
              resize (length (tv_Elements intermediateBatches)) newSceneBatch sceneBatches
        in bind_err
             (ForEachParallel
                (\<lambda>threadIndex offset items.
                   AssembleRange live (rendererDefaultMaterial st) threadIndex offset items)
                (schedule (tv_Elements intermediateBatches))
                (subPassCache, sceneBatches0, missing0))
             (\<lambda>(cache1, sceneBatches1, missing1).
                let subPassContext =
                      \<lparr>ctx_camera = Some (cameraPtr (camera st)),
                       ctx_light = (if isLit then mainLight st else None)\<rparr>
                in bind_err
                     (FillPipelineStates live subPassContext (tv_Elements missing1)
                        (cache1, sceneBatches1, pipelineStateFactory st))
                     (\<lambda>(cache2, sceneBatches2, factory2).
                        Inr (cache2, sceneBatches2,
                             st\<lparr>sceneBatchesWithoutPipelineStates := missing1,
                                pipelineStateFactory := factory2\<rparr>))))"

text \<open>The body of the loop of \<^verbatim>\<open>CollectSceneBatches\<close>, for one pass.\<close>

definition CollectPassBatches ::
  "LiveHashes \<Rightarrow> (IntermediateSceneBatch list \<Rightarrow> IntermediateSceneBatch Schedule)
    \<Rightarrow> PassData \<Rightarrow> SceneBatchCollector \<Rightarrow> error + (PassData \<times> SceneBatchCollector)" where
  "CollectPassBatches live schedule passData st =
     bind_err
       (CollectSceneBaseBatches live schedule False (unlitBatches passData)
          (unlitPipelineStateCache passData, unlitBaseSceneBatches passData, st))
       (\<lambda>(unlitCache, unlitScene, st1).
          bind_err
            (CollectSceneBaseBatches live schedule True (litBatches passData)
               (litPipelineStateCache passData, litBaseSceneBatches passData, st1))
            (\<lambda>(litCache, litScene, st2).
               Inr (passData\<lparr>unlitPipelineStateCache := unlitCache,
                             unlitBaseSceneBatches := unlitScene,
                             litPipelineStateCache := litCache,
                             litBaseSceneBatches := litScene\<rparr>, st2)))"

fun CollectSceneBatchesLoop ::
  "LiveHashes \<Rightarrow> (IntermediateSceneBatch list \<Rightarrow> IntermediateSceneBatch Schedule)
    \<Rightarrow> PassData list \<Rightarrow> SceneBatchCollector \<Rightarrow> error + (PassData list \<times> SceneBatchCollector)" where
  "CollectSceneBatchesLoop live schedule [] st = Inr ([], st)"
| "CollectSceneBatchesLoop live schedule (passData # rest) st =
     (case CollectPassBatches live schedule passData st of
        Inl e \<Rightarrow> Inl e
      | Inr (passData', st') \<Rightarrow>
          (case CollectSceneBatchesLoop live schedule rest st' of
             Inl e \<Rightarrow> Inl e
           | Inr (rest', st'') \<Rightarrow> Inr (passData' # rest', st'')))"

definition CollectSceneBatches ::
  "LiveHashes \<Rightarrow> (IntermediateSceneBatch list \<Rightarrow> IntermediateSceneBatch Schedule)
    \<Rightarrow> SceneBatchCollector \<Rightarrow> error + SceneBatchCollector" where
  "CollectSceneBatches live schedule st =
     (case CollectSceneBatchesLoop live schedule (passes st) st of
        Inl e \<Rightarrow> Inl e
      | Inr (ps, st') \<Rightarrow> Inr (st'\<lparr>passes := ps\<rparr>))"

section \<open>Vocabulary of the specification\<close>

text \<open>
  The presence of a sub-pass slot is what \<^verbatim>\<open>CheckSubPasses\<close> tests: its pass index is
  not \<^verbatim>\<open>M_MAX_UNSIGNED\<close>.
\<close>

definition hasBase :: "PassData \<Rightarrow> bool" where
  "hasBase p = (unlitBasePassIndex p \<noteq> M_MAX_UNSIGNED)"

definition hasLitBase :: "PassData \<Rightarrow> bool" where
  "hasLitBase p = (litBasePassIndex p \<noteq> M_MAX_UNSIGNED)"

definition hasAdditionalLight :: "PassData \<Rightarrow> bool" where
  "hasAdditionalLight p = (additionalLightPassIndex p \<noteq> M_MAX_UNSIGNED)"

text \<open>
  Technique resolution in the words of the specification: a technique entry is skipped
  when its technique is absent, unsupported, or asks for more than the active material
  quality; among the remaining ones the first whose LOD-distance threshold is at or below
  the drawable's LOD distance is selected; a material with exactly one technique returns
  it unconditionally, and when nothing is selected the last technique of the list is the
  fallback.
\<close>

definition eligible :: "int \<Rightarrow> TechniqueEntry \<Rightarrow> bool" where
  "eligible quality entry =
     (case technique entry of
        None \<Rightarrow> False
      | Some tech \<Rightarrow> isSupported tech \<and> qualityLevel entry \<le> quality)"

definition ResolveTechnique_spec :: "int \<Rightarrow> real \<Rightarrow> TechniqueEntry list \<Rightarrow> Technique option" where
  "ResolveTechnique_spec quality lod techs =
     (if length techs = 1 then technique (hd techs)
      else (case find (\<lambda>entry. te_lodDistance entry \<le> lod) (filter (eligible quality) techs) of
              Some entry \<Rightarrow> technique entry
            | None \<Rightarrow> if techs = [] then None else technique (last techs)))"

text \<open>
  Main-light selection in the words of the specification, with the positive score the
  code asks for: a light is the best of a list when it is directional, its importance
  score is positive, and no directional light of the list has a greater score; the main
  light is the first best light in the order of the list.
\<close>

definition isBestLight :: "Drawable list \<Rightarrow> Drawable \<Rightarrow> bool" where
  "isBestLight lights light =
     (lightType light = LIGHT_DIRECTIONAL \<and> intensityDivisor light > 0
      \<and> (\<forall>other \<in> set lights.
            lightType other = LIGHT_DIRECTIONAL
              \<longrightarrow> intensityDivisor other \<le> intensityDivisor light))"

definition MainLight_spec :: "Drawable list \<Rightarrow> Drawable option" where
  "MainLight_spec lights = find (isBestLight lights) lights"

text \<open>
  A containment query in the words of the specification: of the drawables the octree
  offers, those that carry the visible-geometry trait, whose light mask meets the mask of
  the query, and that are inside the volume (the octant as a whole, or the drawable's
  bounding box by the volume's fast test). Reading the trait of a drawable whose index is
  past the end of the table is undefined in the source.
\<close>

definition isLitBy :: "(Drawable \<Rightarrow> bool) \<Rightarrow> u32 list \<Rightarrow> u32 \<Rightarrow> bool \<Rightarrow> Drawable \<Rightarrow> bool" where
  "isLitBy isInsideFast tr queryMask inside drawable =
     (tr ! drawableIndex drawable AND DrawableVisibleGeometry \<noteq> 0
      \<and> lightMask drawable AND queryMask \<noteq> 0
      \<and> (inside \<or> isInsideFast drawable))"

definition indicesInRange :: "u32 list \<Rightarrow> (Drawable list \<times> bool) list \<Rightarrow> bool" where
  "indicesInRange tr octants =
     (\<forall>octant \<in> set octants. \<forall>drawable \<in> set (fst octant). drawableIndex drawable < length tr)"

text \<open>
  The lit geometries of a light in the words of the specification: for a directional
  light, every currently visible geometry whose light mask meets the light's mask; for a
  spot light, the frustum containment query, and for a point light the sphere containment
  query, each with the light's effective mask. The query of a spot or point light is in
  range when every drawable the octree offers it has its index inside the trait table; a
  directional light reads no trait.
\<close>

definition litGeometries_spec :: "SceneBatchCollector \<Rightarrow> Drawable \<Rightarrow> Drawable list" where
  "litGeometries_spec st light =
     (case lightType light of
        LIGHT_DIRECTIONAL \<Rightarrow>
          filter (\<lambda>drawable. lightMask drawable AND lightMask light \<noteq> 0)
            (tv_Elements (visibleGeometries st))
      | LIGHT_SPOT \<Rightarrow>
          concat (map (\<lambda>octant.
                    filter (isLitBy (frustumIsInsideFast (octree st) light) (traits st)
                              (lightMaskEffective light) (snd octant)) (fst octant))
                  (frustumOctants (octree st) light))
      | LIGHT_POINT \<Rightarrow>
          concat (map (\<lambda>octant.
                    filter (isLitBy (sphereIsInsideFast (octree st) light) (traits st)
                              (lightMaskEffective light) (snd octant)) (fst octant))
                  (sphereOctants (octree st) light)))"

definition queryInRange :: "SceneBatchCollector \<Rightarrow> Drawable \<Rightarrow> bool" where
  "queryInRange st light =
     (case lightType light of
        LIGHT_DIRECTIONAL \<Rightarrow> True
      | LIGHT_SPOT \<Rightarrow> indicesInRange (traits st) (frustumOctants (octree st) light)
      | LIGHT_POINT \<Rightarrow> indicesInRange (traits st) (sphereOctants (octree st) light))"

text \<open>
  The list \<^verbatim>\<open>visibleGeometries_\<close> and the visible-geometry trait record the same
  classification: every drawable of the list has the trait at its index, and every index
  that has the trait is the index of a drawable of the list. Two trait tables have the
  same visibility when they have the same length and agree on the visible-geometry trait
  everywhere.
\<close>

definition visibleGeometriesRecorded :: "SceneBatchCollector \<Rightarrow> bool" where
  "visibleGeometriesRecorded st =
     ((\<forall>drawable \<in> set (tv_Elements (visibleGeometries st)).
         drawableIndex drawable < length (traits st)
         \<and> traits st ! drawableIndex drawable AND DrawableVisibleGeometry \<noteq> 0)
      \<and> (\<forall>i < length (traits st).
            traits st ! i AND DrawableVisibleGeometry \<noteq> 0
              \<longrightarrow> (\<exists>drawable \<in> set (tv_Elements (visibleGeometries st)).
                     drawableIndex drawable = i)))"

definition sameVisibility :: "u32 list \<Rightarrow> u32 list \<Rightarrow> bool" where
  "sameVisibility tr tr' =
     (length tr' = length tr
      \<and> (\<forall>j. tr' ! j AND DrawableVisibleGeometry = tr ! j AND DrawableVisibleGeometry))"

section \<open>Sample inputs\<close>

text \<open>Concrete inputs at which the theorems below are evaluated. The pass names
  \<open>base\<close>, \<open>litbase\<close> and \<open>light\<close> have the indices 0, 1 and 2; every other name,
  the empty one included, has none.\<close>

definition samplePassIndex :: "string \<Rightarrow> u32" where
  "samplePassIndex name =
     (if name = ''base'' then 0 else if name = ''litbase'' then 1
      else if name = ''light'' then 2 else M_MAX_UNSIGNED)"

definition sampleTechnique :: Technique where
  "sampleTechnique =
     \<lparr>techniqueId = 1, isSupported = True, techniquePasses = [(0, 10), (2, 12)]\<rparr>"

definition distantTechnique :: Technique where
  "distantTechnique =
     \<lparr>techniqueId = 2, isSupported = True, techniquePasses = [(0, 20)]\<rparr>"

definition sampleMaterial :: Material where
  "sampleMaterial =
     \<lparr>materialPtr = 5,
      techniques = [\<lparr>technique = Some sampleTechnique, qualityLevel = 0, te_lodDistance = 0\<rparr>]\<rparr>"

text \<open>A material with a technique for LOD distance 10 and beyond, and one for any
  distance.\<close>

definition lodMaterial :: Material where
  "lodMaterial =
     \<lparr>materialPtr = 6,
      techniques = [\<lparr>technique = Some distantTechnique, qualityLevel = 0, te_lodDistance = 10\<rparr>,
                    \<lparr>technique = Some sampleTechnique, qualityLevel = 0, te_lodDistance = 0\<rparr>]\<rparr>"

text \<open>A material whose first technique needs quality 3 and whose last technique is
  absent.\<close>

definition absentMaterial :: Material where
  "absentMaterial =
     \<lparr>materialPtr = 7,
      techniques = [\<lparr>technique = Some sampleTechnique, qualityLevel = 3, te_lodDistance = 0\<rparr>,
                    \<lparr>technique = None, qualityLevel = 0, te_lodDistance = 0\<rparr>]\<rparr>"

definition sampleGeometry :: "nat \<Rightarrow> Drawable" where
  "sampleGeometry index =
     \<lparr>drawableIndex = index, drawableFlags = DRAWABLE_GEOMETRY, drawDistance = 0,
      distance = 5, lodDistance = 0, lightMask = 1,
      batches = [\<lparr>sb_geometry = Some 7, sb_material = Some sampleMaterial\<rparr>],
      pipelineStateHash = 3, lightType = LIGHT_DIRECTIONAL, effectiveColorIsBlack = True,
      lightMaskEffective = 0, intensityDivisor = 0\<rparr>"

text \<open>A geometry with draw distance 10 that is 20 away from the camera, and one without
  a draw distance.\<close>

definition farGeometry :: Drawable where
  "farGeometry = (sampleGeometry 0)\<lparr>drawDistance := 10, distance := 20\<rparr>"

definition nearGeometry :: Drawable where
  "nearGeometry = sampleGeometry 1"

definition sampleLight :: "nat \<Rightarrow> LightType \<Rightarrow> real \<Rightarrow> Drawable" where
  "sampleLight index kind score =
     \<lparr>drawableIndex = index, drawableFlags = DRAWABLE_LIGHT, drawDistance = 0,
      distance = 5, lodDistance = 0, lightMask = 1, batches = [],
      pipelineStateHash = 0, lightType = kind, effectiveColorIsBlack = False,
      lightMaskEffective = 1, intensityDivisor = score\<rparr>"

definition sampleOctree :: Octree where
  "sampleOctree =
     \<lparr>numAllDrawables = 2,
      frustumOctants = (\<lambda>light. [([farGeometry, nearGeometry], False)]),
      frustumIsInsideFast = (\<lambda>light drawable. drawableIndex drawable = 1),
      sphereOctants = (\<lambda>light. [([farGeometry], False), ([nearGeometry], True)]),
      sphereIsInsideFast = (\<lambda>light drawable. False)\<rparr>"

definition sampleFrame :: FrameInfo where
  "sampleFrame =
     \<lparr>fi_octree = sampleOctree, fi_camera = \<lparr>cameraPtr = 1, lowMaterialQuality = False\<rparr>\<rparr>"

text \<open>A collector as its constructor leaves it, on a work queue without worker
  threads.\<close>

definition newCollector :: SceneBatchCollector where
  "newCollector =
     \<lparr>workQueueNumThreads = 0, rendererMaterialQuality = 2,
      rendererDefaultMaterial = sampleMaterial, numThreads = 0, pipelineStateFactory = [],
      materialQuality = 0, octree = sampleOctree,
      camera = \<lparr>cameraPtr = 1, lowMaterialQuality = False\<rparr>, numDrawables = 0,
      passes = [], baseBatchesLookup = Map.empty, visibleGeometries = [],
      visibleLightsTemp = [], visibleLights = [], traits = [], mainLight = None,
      cachedLightData = Map.empty, visibleLightsData = [],
      sceneBatchesWithoutPipelineStates = []\<rparr>"

definition frameStart :: SceneBatchCollector where
  "frameStart = InitializeFrame sampleFrame [] newCollector"

text \<open>A valid Unlit pass, and an Unlit pass that names an additional-light sub-pass as
  well, which the validity rule refuses.\<close>

definition unlitPass :: ScenePassDescription where
  "unlitPass = \<lparr>passType = Unlit, unlitBasePassName = ''base'', litBasePassName = [],
                additionalLightPassName = []\<rparr>"

definition invalidPass :: ScenePassDescription where
  "invalidPass = \<lparr>passType = Unlit, unlitBasePassName = ''base'', litBasePassName = [],
                  additionalLightPassName = ''light''\<rparr>"

text \<open>The state in which light processing finds the collector after the two sample
  geometries were collected with \<open>nearGeometry\<close> first.\<close>

definition litState :: SceneBatchCollector where
  "litState = frameStart\<lparr>traits := [1, 3], visibleGeometries := [[nearGeometry]]\<rparr>"

text \<open>The same state with a visible light of each type.\<close>

definition lightsState :: SceneBatchCollector where
  "lightsState =
     litState\<lparr>visibleLights := [sampleLight 2 LIGHT_DIRECTIONAL 1, sampleLight 3 LIGHT_SPOT 1,
                                 sampleLight 4 LIGHT_POINT 1]\<rparr>"

text \<open>A cache key, live hashes under which its geometry has hash 1, and a cache holding
  an entry for the key that was captured at geometry hash 0.\<close>

definition sampleKey :: SubPassPipelineStateKey where
  "sampleKey = \<lparr>key_drawableHash = 3, key_geometry = Some 7, key_material = Some 5,
                key_pass = Some 10\<rparr>"

definition sampleLive :: LiveHashes where
  "sampleLive = \<lparr>geometryLiveHash = (\<lambda>g. 1), materialLiveHash = (\<lambda>m. 0),
                 passLiveHash = (\<lambda>p. 0)\<rparr>"

definition sampleContext :: SubPassPipelineStateContext where
  "sampleContext = \<lparr>ctx_camera = Some 1, ctx_light = None\<rparr>"

definition staleCache :: SubPassPipelineStateCache where
  "staleCache = [sampleKey \<mapsto> newEntry\<lparr>pipelineState := Some 0\<rparr>]"

section \<open>Pass validity\<close>

text \<open>
  Claim C7. \<^verbatim>\<open>PassData::IsValid\<close> is a function of the pass type and of which of the
  three sub-pass slots are present, and nothing else: an Unlit pass is valid exactly when
  it has only the base sub-pass; a ForwardUnlitBase pass exactly when it has base and
  additional-light but not lit-base; a ForwardLitBase pass exactly when it has
  additional-light and either lit-base only or both base and lit-base. Every other
  combination is invalid. Being an equation between values of the configuration, it
  classifies the same configuration the same way however often it is evaluated.
\<close>

theorem IsValid_classifies:
  "IsValid p =
     (case passType (desc p) of
        Unlit \<Rightarrow> hasBase p \<and> \<not> hasLitBase p \<and> \<not> hasAdditionalLight p
      | ForwardUnlitBase \<Rightarrow> hasBase p \<and> \<not> hasLitBase p \<and> hasAdditionalLight p
      | ForwardLitBase \<Rightarrow>
          hasAdditionalLight p
          \<and> ((hasLitBase p \<and> \<not> hasBase p) \<or> (hasBase p \<and> hasLitBase p)))"
  by (cases "passType (desc p)")
     (auto simp: IsValid_def CheckSubPasses_def hasBase_def hasLitBase_def
                 hasAdditionalLight_def)

text \<open>Two pass configurations classified by the theorem: the valid Unlit pass, and the
  Unlit pass with an additional-light sub-pass.\<close>

theorem IsValid_classifies_witness:
  "IsValid (newPassData\<lparr>desc := unlitPass, unlitBasePassIndex := 0,
              litBasePassIndex := M_MAX_UNSIGNED, additionalLightPassIndex := M_MAX_UNSIGNED\<rparr>)
   \<and> \<not> IsValid (newPassData\<lparr>desc := invalidPass, unlitBasePassIndex := 0,
              litBasePassIndex := M_MAX_UNSIGNED, additionalLightPassIndex := 2\<rparr>)"
  using IsValid_classifies [of "newPassData\<lparr>desc := unlitPass, unlitBasePassIndex := 0,
              litBasePassIndex := M_MAX_UNSIGNED, additionalLightPassIndex := M_MAX_UNSIGNED\<rparr>"]
        IsValid_classifies [of "newPassData\<lparr>desc := invalidPass, unlitBasePassIndex := 0,
              litBasePassIndex := M_MAX_UNSIGNED, additionalLightPassIndex := 2\<rparr>"]
  by (simp add: hasBase_def hasLitBase_def hasAdditionalLight_def newPassData_def
                unlitPass_def invalidPass_def M_MAX_UNSIGNED_def)

section \<open>Technique resolution\<close>

text \<open>The scan of \<^verbatim>\<open>FindTechnique\<close> returns the technique of the first eligible entry
  whose threshold the LOD distance reaches, and that technique is present.\<close>

lemma FindTechniqueScan_find:
  "FindTechniqueScan quality lod techs =
     (case find (\<lambda>entry. te_lodDistance entry \<le> lod) (filter (eligible quality) techs) of
        None \<Rightarrow> None
      | Some entry \<Rightarrow> technique entry)"
  by (induction techs) (auto simp: eligible_def split: option.splits)

lemma find_eligible_present:
  "find (\<lambda>entry. te_lodDistance entry \<le> lod) (filter (eligible quality) techs) = Some entry
    \<Longrightarrow> technique entry \<noteq> None"
  by (induction techs) (auto simp: eligible_def split: option.splits if_splits)

text \<open>
  Claim C3, as amended. \<^verbatim>\<open>FindTechnique\<close> returns what the specification's resolution
  returns for the material's technique list, the active material quality and the
  drawable's LOD distance, and so is a function of these three: the sole technique of a
  one-technique material, unconditionally; otherwise the first technique in declared
  order that is present, supported, within the material quality and whose LOD threshold
  is at or below the LOD distance; otherwise the last technique of the list, even one the
  scan rejected. It returns none exactly when the list is empty or when the technique it
  falls back to (the sole one, or the last one after a scan that selected nothing) is
  itself absent.
\<close>

theorem FindTechnique_resolves:
  "FindTechnique quality drawable material
     = ResolveTechnique_spec quality (lodDistance drawable) (techniques material)
   \<and> (FindTechnique quality drawable material = None)
     = (techniques material = []
        \<or> (length (techniques material) = 1
            \<or> find (\<lambda>entry. te_lodDistance entry \<le> lodDistance drawable)
                 (filter (eligible quality) (techniques material)) = None)
          \<and> technique (last (techniques material)) = None)"
proof -
  let ?techs = "techniques material"
  let ?found = "find (\<lambda>entry. te_lodDistance entry \<le> lodDistance drawable)
                  (filter (eligible quality) ?techs)"
  have one: "length ?techs = 1 \<Longrightarrow> ?techs ! 0 = hd ?techs \<and> last ?techs = hd ?techs \<and> ?techs \<noteq> []"
    by (cases ?techs) auto
  have eq: "FindTechnique quality drawable material
              = ResolveTechnique_spec quality (lodDistance drawable) ?techs"
    using one
    by (auto simp: FindTechnique_def ResolveTechnique_spec_def FindTechniqueScan_find Let_def
             split: option.splits dest: find_eligible_present)
  have none: "(ResolveTechnique_spec quality (lodDistance drawable) ?techs = None)
     = (?techs = [] \<or> (length ?techs = 1 \<or> ?found = None) \<and> technique (last ?techs) = None)"
    using one
    by (auto simp: ResolveTechnique_spec_def split: option.splits dest: find_eligible_present)
  show ?thesis using eq none by simp
qed

text \<open>The theorem at the two-technique material, for a drawable at LOD distance 0 and
  one at LOD distance 12, and at the one-technique material.\<close>

theorem FindTechnique_resolves_witness:
  "FindTechnique 2 nearGeometry lodMaterial = Some sampleTechnique
   \<and> FindTechnique 2 (nearGeometry\<lparr>lodDistance := 12\<rparr>) lodMaterial = Some distantTechnique
   \<and> ResolveTechnique_spec 2 0 (techniques lodMaterial) = Some sampleTechnique
   \<and> FindTechnique 2 nearGeometry sampleMaterial = Some sampleTechnique"
  using FindTechnique_resolves [of 2 nearGeometry lodMaterial]
        FindTechnique_resolves [of 2 "nearGeometry\<lparr>lodDistance := 12\<rparr>" lodMaterial]
        FindTechnique_resolves [of 2 nearGeometry sampleMaterial]
  by (simp add: ResolveTechnique_spec_def eligible_def nearGeometry_def sampleGeometry_def
                lodMaterial_def sampleMaterial_def sampleTechnique_def distantTechnique_def)

text \<open>
  Claim C3 as stated says that the result is none only when the technique list is empty.
  The material \<open>absentMaterial\<close> has two entries; at material quality 2 the first is
  rejected for its quality level and the fallback, the last entry, has no technique: the
  result is none although the list is not empty.
\<close>

theorem FindTechnique_none_counterexample:
  "techniques absentMaterial \<noteq> [] \<and> FindTechnique 2 nearGeometry absentMaterial = None"
  by (simp add: FindTechnique_def absentMaterial_def nearGeometry_def sampleGeometry_def
                sampleTechnique_def)

section \<open>Pipeline-state cache\<close>

text \<open>
  Claim C10. A lookup (\<^verbatim>\<open>GetPipelineState\<close>) on a key that has no entry returns a miss
  and the cache it was given: nothing is inserted and no flag is set. And whenever a
  lookup returns a cache other than the one it was given, the key has an entry that was
  not yet invalidated and whose captured geometry, material or pass hash differs from the
  live one; the lookup is a miss, and the only change is that entry's invalidated flag.
\<close>

theorem GetPipelineState_miss_leaves_cache:
  "(cache key = None \<longrightarrow> GetPipelineState live cache key = Inr (None, cache))
   \<and> (GetPipelineState live cache key = Inr (found, cache') \<and> cache' \<noteq> cache
        \<longrightarrow> (\<exists>entry. cache key = Some entry \<and> \<not> invalidated entry
               \<and> hashesDiffer live key entry = Inr True
               \<and> found = None
               \<and> cache' = cache(key \<mapsto> entry\<lparr>invalidated := True\<rparr>)))"
proof (intro conjI impI)
  assume "cache key = None"
  then show "GetPipelineState live cache key = Inr (None, cache)"
    by (simp add: GetPipelineState_def)
next
  assume a: "GetPipelineState live cache key = Inr (found, cache') \<and> cache' \<noteq> cache"
  show "\<exists>entry. cache key = Some entry \<and> \<not> invalidated entry
               \<and> hashesDiffer live key entry = Inr True
               \<and> found = None
               \<and> cache' = cache(key \<mapsto> entry\<lparr>invalidated := True\<rparr>)"
  proof (cases "cache key")
    case None
    with a show ?thesis by (auto simp: GetPipelineState_def)
  next
    case (Some entry)
    show ?thesis
    proof (cases "hashesDiffer live key entry")
      case (Inl e)
      with a Some show ?thesis
        by (auto simp: GetPipelineState_def bind_err_def split: if_splits)
    next
      case (Inr differ)
      with a Some show ?thesis
        by (auto simp: GetPipelineState_def bind_err_def split: if_splits)
    qed
  qed
qed

text \<open>The theorem at the empty cache, and at \<open>staleCache\<close>, whose entry for the key was
  captured at geometry hash 0 while the live hash is 1: there the lookup sets the flag.\<close>

theorem GetPipelineState_miss_leaves_cache_witness:
  "Map.empty sampleKey = None
   \<and> GetPipelineState sampleLive Map.empty sampleKey = Inr (None, Map.empty)
   \<and> GetPipelineState sampleLive staleCache sampleKey
       = Inr (None, staleCache(sampleKey \<mapsto> newEntry\<lparr>pipelineState := Some 0, invalidated := True\<rparr>))
   \<and> staleCache(sampleKey \<mapsto> newEntry\<lparr>pipelineState := Some 0, invalidated := True\<rparr>) \<noteq> staleCache
   \<and> (\<exists>entry. staleCache sampleKey = Some entry \<and> \<not> invalidated entry
         \<and> hashesDiffer sampleLive sampleKey entry = Inr True)"
proof -
  let ?flagged = "staleCache(sampleKey \<mapsto> newEntry\<lparr>pipelineState := Some 0, invalidated := True\<rparr>)"
  have miss: "GetPipelineState sampleLive Map.empty sampleKey = Inr (None, Map.empty)"
    using GetPipelineState_miss_leaves_cache [of Map.empty sampleKey sampleLive] by simp
  have stale: "GetPipelineState sampleLive staleCache sampleKey = Inr (None, ?flagged)"
    by (simp add: GetPipelineState_def hashesDiffer_def bind_err_def newEntry_def
                  staleCache_def sampleKey_def sampleLive_def)
  have "?flagged sampleKey \<noteq> staleCache sampleKey"
    by (simp add: staleCache_def newEntry_def)
  then have changed: "?flagged \<noteq> staleCache" by metis
  from GetPipelineState_miss_leaves_cache [of staleCache sampleKey sampleLive None ?flagged]
    stale changed
  have "\<exists>entry. staleCache sampleKey = Some entry \<and> \<not> invalidated entry
         \<and> hashesDiffer sampleLive sampleKey entry = Inr True"
    by blast
  with miss stale changed show ?thesis by simp
qed

text \<open>
  \<^verbatim>\<open>GetOrCreatePipelineState\<close> never writes the three captured hashes of an entry: the
  entry it leaves for the key has the hashes of the entry it found, and the zero hashes of
  a value-initialised entry when it found none.
\<close>

lemma GetOrCreatePipelineState_keeps_hashes:
  assumes "GetOrCreatePipelineState live cache factory drawable key factoryContext
             = Inr (created, cache', factory')"
  shows "\<exists>entry'. cache' key = Some entry'
           \<and> geometryHash entry' = geometryHash (case cache key of None \<Rightarrow> newEntry | Some e \<Rightarrow> e)
           \<and> materialHash entry' = materialHash (case cache key of None \<Rightarrow> newEntry | Some e \<Rightarrow> e)
           \<and> passHash entry' = passHash (case cache key of None \<Rightarrow> newEntry | Some e \<Rightarrow> e)"
proof -
  let ?entry = "case cache key of None \<Rightarrow> newEntry | Some e \<Rightarrow> e"
  let ?create = "if pipelineState ?entry = None \<or> invalidated ?entry then Inr True
                 else hashesDiffer live key ?entry"
  show ?thesis
  proof (cases ?create)
    case (Inl e)
    with assms show ?thesis
      by (simp add: GetOrCreatePipelineState_def bind_err_def Let_def)
  next
    case (Inr create)
    with assms show ?thesis
      by (cases create)
         (auto simp: GetOrCreatePipelineState_def bind_err_def Let_def CreatePipelineState_def)
  qed
qed

text \<open>Consequently a lookup that follows the creation of an entry hits only when the
  three live hashes of the key are all zero, the value the never-written captured hashes
  have.\<close>

lemma lookup_after_create_hits_only_at_zero_hashes:
  assumes fresh: "cache key = None"
    and create: "GetOrCreatePipelineState live cache factory drawable key factoryContext
                   = Inr (created, cache', factory')"
    and lookup: "GetPipelineState live cache' key = Inr (found, cache'')"
    and key: "key_geometry key = Some g" "key_material key = Some m" "key_pass key = Some p"
    and hit: "found \<noteq> None"
  shows "geometryLiveHash live g = 0 \<and> materialLiveHash live m = 0 \<and> passLiveHash live p = 0"
proof -
  from fresh create have cache': "cache' key = Some (newEntry\<lparr>pipelineState := created\<rparr>)"
    by (auto simp: GetOrCreatePipelineState_def bind_err_def Let_def newEntry_def
                   CreatePipelineState_def)
  with lookup key hit show ?thesis
    by (auto simp: GetPipelineState_def hashesDiffer_def bind_err_def newEntry_def
             split: if_splits)
qed

text \<open>
  Claim C4, evaluated at an input where it fails. The cache is empty, the key's geometry
  has the live hash 1, and nothing changes between the two calls.
  \<^verbatim>\<open>GetOrCreatePipelineState\<close> calls the factory, stores the new state 0 and leaves the
  captured hashes at 0; the lookup that follows compares the live geometry hash 1 with
  the captured 0, answers a miss and flags the entry invalidated, where the claim has it
  return state 0. A second \<^verbatim>\<open>GetOrCreatePipelineState\<close> calls the factory again
  (state 1) and again stores no hash.
\<close>

theorem GetOrCreate_then_lookup_misses:
  "(case GetOrCreatePipelineState sampleLive Map.empty [] (Some nearGeometry) sampleKey
           sampleContext of
      Inl e \<Rightarrow> False
    | Inr (created, cache, factory) \<Rightarrow>
        created = Some 0 \<and> length factory = 1
        \<and> map_option geometryHash (cache sampleKey) = Some 0
        \<and> geometryLiveHash sampleLive 7 = 1
        \<and> (case GetPipelineState sampleLive cache sampleKey of
              Inl e \<Rightarrow> False
            | Inr (found, cache') \<Rightarrow>
                found = None \<and> map_option invalidated (cache' sampleKey) = Some True
                \<and> (case GetOrCreatePipelineState sampleLive cache' factory
                           (Some nearGeometry) sampleKey sampleContext of
                      Inl e \<Rightarrow> False
                    | Inr (created', cache'', factory') \<Rightarrow>
                        created' = Some 1 \<and> length factory' = 2
                        \<and> map_option geometryHash (cache'' sampleKey) = Some 0)))"
  by (simp add: GetOrCreatePipelineState_def GetPipelineState_def hashesDiffer_def
                bind_err_def newEntry_def CreatePipelineState_def Let_def
                sampleKey_def sampleLive_def sampleContext_def)

section \<open>Main light\<close>

text \<open>The score the loop ends with is at least the score it starts with, it bounds the
  score of every directional light of the list, and unless it is the starting score some
  directional light of the list has it.\<close>

lemma FindMainLightLoop_score_ge:
  "mainLightScore \<le> fst (FindMainLightLoop mainLightScore main lights)"
proof (induction lights arbitrary: mainLightScore main)
  case Nil
  show ?case by simp
next
  case (Cons light rest)
  show ?case
  proof (cases "lightType light = LIGHT_DIRECTIONAL \<and> intensityDivisor light > mainLightScore")
    case True
    have "intensityDivisor light
            \<le> fst (FindMainLightLoop (intensityDivisor light) (Some light) rest)"
      by (rule Cons.IH)
    with True show ?thesis by (simp add: Let_def)
  next
    case False
    with Cons.IH [of mainLightScore main] show ?thesis by (auto simp: Let_def)
  qed
qed

lemma FindMainLightLoop_score_upper:
  "light \<in> set lights \<Longrightarrow> lightType light = LIGHT_DIRECTIONAL
    \<Longrightarrow> intensityDivisor light \<le> fst (FindMainLightLoop mainLightScore main lights)"
proof (induction lights arbitrary: mainLightScore main)
  case Nil
  then show ?case by simp
next
  case (Cons x rest)
  show ?case
  proof (cases "light = x")
    case True
    show ?thesis
    proof (cases "intensityDivisor x > mainLightScore")
      case True
      with \<open>light = x\<close> Cons.prems
        FindMainLightLoop_score_ge [of "intensityDivisor x" "Some x" rest]
      show ?thesis by (simp add: Let_def)
    next
      case False
      with \<open>light = x\<close> Cons.prems FindMainLightLoop_score_ge [of mainLightScore main rest]
      show ?thesis by (simp add: Let_def)
    qed
  next
    case False
    with Cons.prems have "light \<in> set rest" by simp
    with Cons.IH Cons.prems show ?thesis by (simp add: Let_def)
  qed
qed

lemma FindMainLightLoop_score_attained:
  "fst (FindMainLightLoop mainLightScore main lights) = mainLightScore
   \<or> (\<exists>light \<in> set lights. lightType light = LIGHT_DIRECTIONAL
        \<and> intensityDivisor light = fst (FindMainLightLoop mainLightScore main lights))"
proof (induction lights arbitrary: mainLightScore main)
  case Nil
  show ?case by simp
next
  case (Cons x rest)
  show ?case
  proof (cases "lightType x = LIGHT_DIRECTIONAL \<and> intensityDivisor x > mainLightScore")
    case True
    with Cons.IH [of "intensityDivisor x" "Some x"] show ?thesis
      by (auto simp: Let_def)
  next
    case False
    with Cons.IH [of mainLightScore main] show ?thesis by (auto simp: Let_def)
  qed
qed

text \<open>The light the loop ends with: the first directional light that has the final
  score when the score was raised at all, the light it started with otherwise.\<close>

lemma FindMainLightLoop_light:
  "snd (FindMainLightLoop mainLightScore main lights) =
     (if fst (FindMainLightLoop mainLightScore main lights) > mainLightScore
      then find (\<lambda>light. lightType light = LIGHT_DIRECTIONAL
                   \<and> intensityDivisor light
                       = fst (FindMainLightLoop mainLightScore main lights)) lights
      else main)"
proof (induction lights arbitrary: mainLightScore main)
  case Nil
  show ?case by simp
next
  case (Cons x rest)
  show ?case
  proof (cases "lightType x = LIGHT_DIRECTIONAL")
    case False
    with Cons.IH [of mainLightScore main] show ?thesis by simp
  next
    case dir: True
    show ?thesis
    proof (cases "intensityDivisor x > mainLightScore")
      case True
      have ge: "intensityDivisor x
                  \<le> fst (FindMainLightLoop (intensityDivisor x) (Some x) rest)"
        by (rule FindMainLightLoop_score_ge)
      with dir True Cons.IH [of "intensityDivisor x" "Some x"] show ?thesis
        by (auto simp: Let_def)
    next
      case False
      with dir Cons.IH [of mainLightScore main] show ?thesis
        by (auto simp: Let_def)
    qed
  qed
qed

lemma FindMainLight_spec: "FindMainLight lights = MainLight_spec lights"
proof -
  let ?M = "fst (FindMainLightLoop 0 None lights)"
  have ge: "0 \<le> ?M" by (rule FindMainLightLoop_score_ge)
  have upper: "\<And>l. l \<in> set lights \<Longrightarrow> lightType l = LIGHT_DIRECTIONAL
                  \<Longrightarrow> intensityDivisor l \<le> ?M"
    by (rule FindMainLightLoop_score_upper)
  show ?thesis
  proof (cases "?M > 0")
    case True
    with FindMainLightLoop_score_attained [of 0 None lights]
    obtain top where top: "top \<in> set lights" "lightType top = LIGHT_DIRECTIONAL"
        "intensityDivisor top = ?M"
      by auto
    have "find (isBestLight lights) lights
            = find (\<lambda>l. lightType l = LIGHT_DIRECTIONAL \<and> intensityDivisor l = ?M) lights"
    proof (rule find_cong [OF refl])
      fix l assume l: "l \<in> set lights"
      show "isBestLight lights l
              = (lightType l = LIGHT_DIRECTIONAL \<and> intensityDivisor l = ?M)"
      proof
        assume best: "isBestLight lights l"
        then have "intensityDivisor top \<le> intensityDivisor l"
          using top(1,2) unfolding isBestLight_def by blast
        moreover have "intensityDivisor l \<le> ?M"
          using best l upper by (simp add: isBestLight_def)
        ultimately show "lightType l = LIGHT_DIRECTIONAL \<and> intensityDivisor l = ?M"
          using best top by (simp add: isBestLight_def)
      next
        assume "lightType l = LIGHT_DIRECTIONAL \<and> intensityDivisor l = ?M"
        with True upper show "isBestLight lights l"
          by (simp add: isBestLight_def)
      qed
    qed
    with True show ?thesis
      by (simp add: FindMainLight_def MainLight_spec_def FindMainLightLoop_light)
  next
    case False
    with ge have zero: "?M = 0" by simp
    have "find (isBestLight lights) lights = None"
      unfolding find_None_iff
    proof (intro notI, elim exE conjE)
      fix l assume "l \<in> set lights" "isBestLight lights l"
      with upper [of l] zero show False by (simp add: isBestLight_def)
    qed
    with False show ?thesis
      by (simp add: FindMainLight_def MainLight_spec_def FindMainLightLoop_light)
  qed
qed

lemma find_filter_hd: "find P xs = (case filter P xs of [] \<Rightarrow> None | x # _ \<Rightarrow> Some x)"
  by (induction xs) auto

lemma isBestLight_set: "set lights' = set lights \<Longrightarrow> isBestLight lights' = isBestLight lights"
  by (auto simp: isBestLight_def fun_eq_iff)

text \<open>
  Claim C5, as amended. Main-light selection returns the first light, in the order of the
  visible lights, that is directional, has a strictly positive importance score, and has
  the greatest score of all visible directional lights; it returns none when no
  directional light has a positive score. Hence several lights tied at the greatest score
  leave the first of them selected, a light that is not directional is never selected,
  and the selection is the same for every list of the same lights in which the lights
  tied at the greatest score stand in the same order.
\<close>

theorem FindMainLight_selects:
  "FindMainLight lights = MainLight_spec lights
   \<and> (\<forall>light. FindMainLight lights = Some light \<longrightarrow> lightType light = LIGHT_DIRECTIONAL)
   \<and> (\<forall>lights'. set lights' = set lights
         \<and> filter (isBestLight lights) lights' = filter (isBestLight lights) lights
         \<longrightarrow> FindMainLight lights' = FindMainLight lights)"
proof (intro conjI allI impI)
  show "FindMainLight lights = MainLight_spec lights" by (rule FindMainLight_spec)
next
  fix light assume "FindMainLight lights = Some light"
  then have "find (isBestLight lights) lights = Some light"
    by (simp add: FindMainLight_spec MainLight_spec_def)
  then show "lightType light = LIGHT_DIRECTIONAL"
    by (auto simp: find_Some_iff isBestLight_def)
next
  fix lights'
  assume a: "set lights' = set lights
      \<and> filter (isBestLight lights) lights' = filter (isBestLight lights) lights"
  then have "set lights' = set lights" by simp
  then have "isBestLight lights' = isBestLight lights" by (rule isBestLight_set)
  with a show "FindMainLight lights' = FindMainLight lights"
    by (simp add: FindMainLight_spec MainLight_spec_def find_filter_hd)
qed

text \<open>The theorem at a point light of score 9 followed by directional lights of scores
  3, 7 and 7: the first light of score 7 is selected, also when the point light and the
  light of score 3 change places.\<close>

theorem FindMainLight_selects_witness:
  "FindMainLight [sampleLight 0 LIGHT_POINT 9, sampleLight 1 LIGHT_DIRECTIONAL 3,
                  sampleLight 2 LIGHT_DIRECTIONAL 7, sampleLight 3 LIGHT_DIRECTIONAL 7]
     = Some (sampleLight 2 LIGHT_DIRECTIONAL 7)
   \<and> lightType (sampleLight 2 LIGHT_DIRECTIONAL 7) = LIGHT_DIRECTIONAL
   \<and> FindMainLight [sampleLight 1 LIGHT_DIRECTIONAL 3, sampleLight 0 LIGHT_POINT 9,
                    sampleLight 2 LIGHT_DIRECTIONAL 7, sampleLight 3 LIGHT_DIRECTIONAL 7]
     = Some (sampleLight 2 LIGHT_DIRECTIONAL 7)"
proof -
  let ?lights = "[sampleLight 0 LIGHT_POINT 9, sampleLight 1 LIGHT_DIRECTIONAL 3,
                  sampleLight 2 LIGHT_DIRECTIONAL 7, sampleLight 3 LIGHT_DIRECTIONAL 7]"
  let ?lights' = "[sampleLight 1 LIGHT_DIRECTIONAL 3, sampleLight 0 LIGHT_POINT 9,
                   sampleLight 2 LIGHT_DIRECTIONAL 7, sampleLight 3 LIGHT_DIRECTIONAL 7]"
  note inst = FindMainLight_selects [of ?lights]
  have spec: "MainLight_spec ?lights = Some (sampleLight 2 LIGHT_DIRECTIONAL 7)"
    by (simp add: MainLight_spec_def isBestLight_def sampleLight_def)
  with inst have sel: "FindMainLight ?lights = Some (sampleLight 2 LIGHT_DIRECTIONAL 7)"
    by simp
  with inst have dir: "lightType (sampleLight 2 LIGHT_DIRECTIONAL 7) = LIGHT_DIRECTIONAL"
    by blast
  have "set ?lights' = set ?lights" by auto
  moreover have "filter (isBestLight ?lights) ?lights' = filter (isBestLight ?lights) ?lights"
    by (simp add: isBestLight_def sampleLight_def)
  ultimately have "FindMainLight ?lights' = FindMainLight ?lights"
    using inst by blast
  with sel dir show ?thesis by simp
qed

text \<open>
  Claim C5 as stated has the directional light of greatest score selected. A single
  visible directional light of score 0 has the greatest score of all directional lights,
  and is not selected.
\<close>

theorem FindMainLight_zero_score_counterexample:
  "lightType (sampleLight 0 LIGHT_DIRECTIONAL 0) = LIGHT_DIRECTIONAL
   \<and> FindMainLight [sampleLight 0 LIGHT_DIRECTIONAL 0] = None"
  by (simp add: FindMainLight_def sampleLight_def)

text \<open>
  Claim C9. When every visible directional light has an importance score of zero or
  less, no main light is selected, whether or not there are directional lights.
\<close>

theorem FindMainLight_needs_positive_score:
  "(\<forall>light \<in> set lights. lightType light = LIGHT_DIRECTIONAL \<longrightarrow> intensityDivisor light \<le> 0)
    \<Longrightarrow> FindMainLight lights = None"
proof -
  assume nonpos: "\<forall>light \<in> set lights. lightType light = LIGHT_DIRECTIONAL
                    \<longrightarrow> intensityDivisor light \<le> 0"
  have "\<And>mainLightScore main. 0 \<le> mainLightScore
          \<Longrightarrow> FindMainLightLoop mainLightScore main lights = (mainLightScore, main)"
    using nonpos
  proof (induction lights)
    case Nil
    show ?case by simp
  next
    case (Cons x rest)
    then show ?case by (auto simp: Let_def)
  qed
  then show ?thesis by (simp add: FindMainLight_def)
qed

text \<open>The theorem at two directional lights of scores 0 and -1 and a spot light of
  score 4.\<close>

theorem FindMainLight_needs_positive_score_witness:
  "(\<exists>light \<in> set [sampleLight 0 LIGHT_DIRECTIONAL 0, sampleLight 1 LIGHT_DIRECTIONAL (-1),
                   sampleLight 2 LIGHT_SPOT 4]. lightType light = LIGHT_DIRECTIONAL)
   \<and> FindMainLight [sampleLight 0 LIGHT_DIRECTIONAL 0, sampleLight 1 LIGHT_DIRECTIONAL (-1),
                    sampleLight 2 LIGHT_SPOT 4] = None"
proof -
  have "\<forall>light \<in> set [sampleLight 0 LIGHT_DIRECTIONAL 0, sampleLight 1 LIGHT_DIRECTIONAL (-1),
                      sampleLight 2 LIGHT_SPOT 4].
          lightType light = LIGHT_DIRECTIONAL \<longrightarrow> intensityDivisor light \<le> 0"
    by (simp add: sampleLight_def)
  from FindMainLight_needs_positive_score [OF this] show ?thesis
    by (simp add: sampleLight_def)
qed

section \<open>Visible geometries and the trait table\<close>

text \<open>Source-batch collection sets the visible-geometry trait of a drawable exactly
  when it appends the drawable to \<^verbatim>\<open>visibleGeometries_\<close>, and nothing else in it
  touches that bit: from the start of the frame on, the list and the trait record the
  same classification.\<close>

lemma trait_bits:
  "((x :: u32) OR DrawableVisibleGeometry) AND DrawableVisibleGeometry \<noteq> 0"
  "((x :: u32) OR ForwardLit) AND DrawableVisibleGeometry = x AND DrawableVisibleGeometry"
  "((x :: u32) OR DrawableUpdated) AND DrawableVisibleGeometry = x AND DrawableVisibleGeometry"
  by (simp_all add: DrawableVisibleGeometry_def ForwardLit_def DrawableUpdated_def
                    bit.conj_disj_distrib2 or_eq_0_iff)

lemma orTrait_Inr:
  "orTrait i trait tr = Inr tr' \<Longrightarrow> i < length tr \<and> tr' = tr[i := tr ! i OR trait]"
  by (auto simp: orTrait_def split: if_splits)

lemma sameVisibility_refl: "sameVisibility tr tr"
  by (simp add: sameVisibility_def)

lemma sameVisibility_trans:
  "sameVisibility tr tr' \<Longrightarrow> sameVisibility tr' tr'' \<Longrightarrow> sameVisibility tr tr''"
  by (simp add: sameVisibility_def)

lemma sameVisibility_update:
  "i < length tr \<Longrightarrow> v AND DrawableVisibleGeometry = tr ! i AND DrawableVisibleGeometry
    \<Longrightarrow> sameVisibility tr (tr[i := v])"
  by (auto simp: sameVisibility_def nth_list_update)

lemma FillPass_sameVisibility:
  assumes "FillPass threadIndex drawable i tech pass tr = Inr (pass', tr')"
  shows "sameVisibility tr tr'"
proof -
  let ?batch = "CreateIntermediateSceneBatch pass drawable i
                  (GetPass tech (unlitBasePassIndex pass)) (GetPass tech (litBasePassIndex pass))
                  (GetPass tech (additionalLightPassIndex pass))"
  show ?thesis
  proof (cases "isb_additionalPass ?batch \<noteq> None")
    case True
    with assms obtain tr1 where "orTrait (drawableIndex drawable) ForwardLit tr = Inr tr1"
        and "tr' = tr1"
      by (auto simp: FillPass_def Let_def bind_err_def split: sum.splits)
    then show ?thesis
      by (auto dest!: orTrait_Inr intro!: sameVisibility_update simp: trait_bits)
  next
    case False
    with assms have "tr' = tr"
      by (auto simp: FillPass_def Let_def bind_err_def split: sum.splits if_splits)
    then show ?thesis by (simp add: sameVisibility_refl)
  qed
qed

lemma FillPasses_sameVisibility:
  "FillPasses threadIndex drawable i tech ps tr = Inr (ps', tr') \<Longrightarrow> sameVisibility tr tr'"
proof (induction ps arbitrary: tr ps' tr')
  case Nil
  then show ?case by (simp add: sameVisibility_refl)
next
  case (Cons pass rest)
  then show ?case
    by (auto split: sum.splits prod.splits
             dest!: FillPass_sameVisibility intro: sameVisibility_trans)
qed

lemma CollectSourceBatches_sameVisibility:
  "CollectSourceBatches threadIndex quality dflt drawable i sourceBatches ps tr = Inr (ps', tr')
    \<Longrightarrow> sameVisibility tr tr'"
proof (induction sourceBatches arbitrary: i ps tr)
  case Nil
  then show ?case by (simp add: sameVisibility_refl)
next
  case (Cons sourceBatch rest)
  then show ?case
    by (auto simp: Let_def split: option.splits sum.splits prod.splits
             dest!: FillPasses_sameVisibility intro: sameVisibility_trans)
qed

lemma tv_Insert_elements:
  assumes "tv_Insert threadIndex v tv = Inr tv'"
  shows "set (tv_Elements tv') = insert v (set (tv_Elements tv))"
proof -
  from assms have t: "threadIndex < length tv"
      and tv': "tv' = tv[threadIndex := tv ! threadIndex @ [v]]"
    by (auto simp: tv_Insert_def split: if_splits)
  have "tv = take threadIndex tv @ tv ! threadIndex # drop (Suc threadIndex) tv"
    using t by (rule id_take_nth_drop)
  then have "set (concat tv)
      = set (concat (take threadIndex tv)) \<union> set (tv ! threadIndex)
        \<union> set (concat (drop (Suc threadIndex) tv))"
    by (metis concat.simps(2) concat_append set_append sup_assoc)
  moreover have "tv' = take threadIndex tv @ (tv ! threadIndex @ [v]) # drop (Suc threadIndex) tv"
    using t tv' by (simp add: upd_conv_take_nth_drop)
  then have "set (concat tv')
      = set (concat (take threadIndex tv)) \<union> set (tv ! threadIndex @ [v])
        \<union> set (concat (drop (Suc threadIndex) tv))"
    by (metis concat.simps(2) concat_append set_append sup_assoc)
  ultimately show ?thesis by (auto simp: tv_Elements_def)
qed


lemma visibleGeometriesRecorded_same:
  assumes "visibleGeometriesRecorded st"
    and "set (tv_Elements (visibleGeometries st')) = set (tv_Elements (visibleGeometries st))"
    and "sameVisibility (traits st) (traits st')"
  shows "visibleGeometriesRecorded st'"
  using assms unfolding visibleGeometriesRecorded_def sameVisibility_def by auto

lemma visibleGeometriesRecorded_insert:
  assumes inv: "visibleGeometriesRecorded st"
    and vg: "set (tv_Elements (visibleGeometries st'))
               = insert drawable (set (tv_Elements (visibleGeometries st)))"
    and idx: "drawableIndex drawable < length (traits st)"
    and len: "length (traits st') = length (traits st)"
    and at: "traits st' ! drawableIndex drawable AND DrawableVisibleGeometry \<noteq> 0"
    and other: "\<And>j. j \<noteq> drawableIndex drawable
                 \<Longrightarrow> traits st' ! j AND DrawableVisibleGeometry
                       = traits st ! j AND DrawableVisibleGeometry"
  shows "visibleGeometriesRecorded st'"
proof -
  have sound: "drawableIndex d < length (traits st')
          \<and> traits st' ! drawableIndex d AND DrawableVisibleGeometry \<noteq> 0"
    if "d \<in> set (tv_Elements (visibleGeometries st'))" for d
  proof (cases "drawableIndex d = drawableIndex drawable")
    case True
    with idx len at show ?thesis by simp
  next
    case False
    with that vg have "d \<in> set (tv_Elements (visibleGeometries st))" by auto
    with inv have "drawableIndex d < length (traits st)
        \<and> traits st ! drawableIndex d AND DrawableVisibleGeometry \<noteq> 0"
      by (simp add: visibleGeometriesRecorded_def)
    with False len other [of "drawableIndex d"] show ?thesis by simp
  qed
  have complete: "\<exists>d \<in> set (tv_Elements (visibleGeometries st')). drawableIndex d = i"
    if i: "i < length (traits st')"
      and bit: "traits st' ! i AND DrawableVisibleGeometry \<noteq> 0" for i
  proof (cases "i = drawableIndex drawable")
    case True
    with vg show ?thesis by auto
  next
    case False
    with bit other [of i] have "traits st ! i AND DrawableVisibleGeometry \<noteq> 0" by simp
    with inv i len obtain d where "d \<in> set (tv_Elements (visibleGeometries st))"
        "drawableIndex d = i"
      by (auto simp: visibleGeometriesRecorded_def)
    with vg show ?thesis by auto
  qed
  from sound complete show ?thesis
    unfolding visibleGeometriesRecorded_def by blast
qed

lemma ProcessDrawable_recorded:
  assumes run: "ProcessDrawable threadIndex drawable st = Inr (returned, st')"
    and inv: "visibleGeometriesRecorded st"
  shows "visibleGeometriesRecorded st'"
proof -
  let ?idx = "drawableIndex drawable"
  from run obtain tr1 where tr1: "orTrait ?idx DrawableUpdated (traits st) = Inr tr1"
    by (auto simp: ProcessDrawable_def bind_err_def split: sum.splits)
  then have idx: "?idx < length (traits st)"
      and tr1_eq: "tr1 = (traits st)[?idx := traits st ! ?idx OR DrawableUpdated]"
    by (auto dest: orTrait_Inr)
  have same1: "sameVisibility (traits st) tr1"
    unfolding tr1_eq using idx by (intro sameVisibility_update) (simp_all add: trait_bits)
  let ?st1 = "st\<lparr>traits := tr1\<rparr>"
  have inv1: "visibleGeometriesRecorded ?st1"
    by (rule visibleGeometriesRecorded_same [OF inv]) (simp_all add: same1)
  show ?thesis
  proof (cases "drawDistance drawable > 0 \<and> distance drawable > drawDistance drawable")
    case True
    with run tr1 have "st' = ?st1"
      by (simp add: ProcessDrawable_def bind_err_def Let_def)
    with inv1 show ?thesis by simp
  next
    case near: False
    show ?thesis
    proof (cases "drawableFlags drawable AND DRAWABLE_GEOMETRY \<noteq> 0")
      case True
      with run tr1 near obtain vg tr2 ps tr3 where
          vg: "tv_Insert threadIndex drawable (visibleGeometries st) = Inr vg"
          and tr2: "orTrait ?idx DrawableVisibleGeometry tr1 = Inr tr2"
          and coll: "CollectSourceBatches threadIndex (materialQuality st)
                       (rendererDefaultMaterial st) drawable 0 (batches drawable)
                       (passes st) tr2 = Inr (ps, tr3)"
          and st': "st' = st\<lparr>traits := tr3, visibleGeometries := vg, passes := ps\<rparr>"
        by (auto simp: ProcessDrawable_def bind_err_def Let_def split: sum.splits prod.splits)
      from tr2 have tr2_eq: "tr2 = tr1[?idx := tr1 ! ?idx OR DrawableVisibleGeometry]"
        by (auto dest: orTrait_Inr)
      from coll have same3: "sameVisibility tr2 tr3"
        by (rule CollectSourceBatches_sameVisibility)
      have len: "length tr3 = length (traits st)"
        using same3 tr2_eq tr1_eq by (simp add: sameVisibility_def)
      have at: "tr3 ! ?idx AND DrawableVisibleGeometry \<noteq> 0"
        using same3 tr2_eq tr1_eq idx
        by (simp add: sameVisibility_def trait_bits) (simp add: DrawableVisibleGeometry_def)
      have other: "\<And>j. j \<noteq> ?idx \<Longrightarrow> tr3 ! j AND DrawableVisibleGeometry
                     = traits st ! j AND DrawableVisibleGeometry"
        using same3 tr2_eq tr1_eq by (simp add: sameVisibility_def)
      show ?thesis
        by (rule visibleGeometriesRecorded_insert [OF inv _ idx])
           (simp_all add: st' tv_Insert_elements [OF vg] len at other)
    next
      case False
      with run tr1 near have "visibleGeometries st' = visibleGeometries st \<and> traits st' = tr1"
        by (auto simp: ProcessDrawable_def bind_err_def Let_def split: sum.splits if_splits)
      with inv same1 show ?thesis
        by (intro visibleGeometriesRecorded_same [of st st']) simp_all
    qed
  qed
qed

lemma UpdateAndCollectSourceBatchesForThread_recorded:
  "UpdateAndCollectSourceBatchesForThread threadIndex drawables st = Inr st'
    \<Longrightarrow> visibleGeometriesRecorded st \<Longrightarrow> visibleGeometriesRecorded st'"
proof (induction drawables arbitrary: st)
  case Nil
  then show ?case by simp
next
  case (Cons drawable rest)
  then show ?case
    by (auto split: sum.splits prod.splits if_splits dest: ProcessDrawable_recorded)
qed

lemma InitializeFrame_recorded:
  "visibleGeometriesRecorded (InitializeFrame frameInfo factory st)"
  by (simp add: visibleGeometriesRecorded_def InitializeFrame_def Let_def tv_Clear_def
                tv_Elements_def transient_Reset_def DrawableVisibleGeometry_def)

lemma ForEachParallel_recorded:
  "ForEachParallel
      (\<lambda>threadIndex offset drawablesRange.
         UpdateAndCollectSourceBatchesForThread threadIndex drawablesRange) schedule st = Inr st'
    \<Longrightarrow> visibleGeometriesRecorded st \<Longrightarrow> visibleGeometriesRecorded st'"
proof (induction schedule arbitrary: st)
  case Nil
  then show ?case by simp
next
  case (Cons call calls)
  obtain threadIndex offset items where call: "call = (threadIndex, offset, items)"
    by (cases call)
  from Cons.prems show ?case
    unfolding call
    by (auto split: sum.splits
             dest: UpdateAndCollectSourceBatchesForThread_recorded intro: Cons.IH)
qed

lemma UpdateAndCollectSourceBatches_recorded:
  assumes "UpdateAndCollectSourceBatches schedule st = Inr st'"
    and "visibleGeometriesRecorded st"
  shows "visibleGeometriesRecorded st'"
proof -
  from assms(1) obtain st1 where
      run: "ForEachParallel
              (\<lambda>threadIndex offset drawablesRange.
                 UpdateAndCollectSourceBatchesForThread threadIndex drawablesRange)
              schedule st = Inr st1"
      and st': "st' = st1\<lparr>visibleLights := tv_Elements (visibleLightsTemp st1)\<rparr>"
    by (auto simp: UpdateAndCollectSourceBatches_def bind_err_def split: sum.splits)
  from run assms(2) have "visibleGeometriesRecorded st1" by (rule ForEachParallel_recorded)
  then show ?thesis
    unfolding st' by (simp add: visibleGeometriesRecorded_def)
qed

section \<open>Lit geometries\<close>

text \<open>The three loops that fill the list of lit geometries append, in order, the
  drawables that pass their tests.\<close>

lemma TestDrawables_filter:
  "TestDrawables isInsideFast tr queryMask drawables inside result =
     (if \<forall>drawable \<in> set drawables. drawableIndex drawable < length tr
      then Inr (result @ filter (isLitBy isInsideFast tr queryMask inside) drawables)
      else Inl OutOfRange)"
  by (induction drawables arbitrary: result) (auto simp: isLitBy_def)

lemma GetDrawables_concat:
  "GetDrawables isInsideFast tr queryMask octants result =
     (if indicesInRange tr octants
      then Inr (result @ concat (map (\<lambda>octant.
                  filter (isLitBy isInsideFast tr queryMask (snd octant)) (fst octant)) octants))
      else Inl OutOfRange)"
proof (induction octants arbitrary: result)
  case Nil
  show ?case by (simp add: indicesInRange_def)
next
  case (Cons octant rest)
  obtain drawables inside where octant: "octant = (drawables, inside)" by (cases octant)
  show ?case
    unfolding octant
    by (simp add: TestDrawables_filter Cons.IH) (auto simp: indicesInRange_def)
qed

lemma ForEachVisibleGeometry_filter:
  "ForEachVisibleGeometry queryMask drawables litGeometries =
     litGeometries @ filter (\<lambda>drawable. lightMask drawable AND queryMask \<noteq> 0) drawables"
  by (induction drawables arbitrary: litGeometries) auto

text \<open>\<^verbatim>\<open>CollectLitGeometries\<close> appends the lit geometries of the light to the
  list it is given, and runs out of range exactly when the light's query does.\<close>

lemma CollectLitGeometries_eq:
  "CollectLitGeometries st light litGeometries =
     (if queryInRange st light then Inr (litGeometries @ litGeometries_spec st light)
      else Inl OutOfRange)"
  by (cases "lightType light")
     (simp_all add: CollectLitGeometries_def queryInRange_def litGeometries_spec_def
                    GetDrawables_concat ForEachVisibleGeometry_filter)

section \<open>Light processing\<close>

text \<open>\<^verbatim>\<open>ProcessVisibleLights\<close> as a whole: it fails exactly when the query of a
  visible light is out of range; otherwise it leaves in \<^verbatim>\<open>mainLight_\<close> the light
  that main-light selection returns, and in the cached \<^verbatim>\<open>LightData\<close> of every visible
  light the lit geometries of that light, once for every time the light stands in
  \<^verbatim>\<open>visibleLights_\<close> (its list is cleared once and appended to once per occurrence).
  Nothing else changes.\<close>

lemma count_list_distinct: "x \<in> set xs \<Longrightarrow> distinct xs \<Longrightarrow> count_list xs x = 1"
  by (induction xs) auto

lemma litGeometries_spec_mainLight:
  "litGeometries_spec (st\<lparr>mainLight := main\<rparr>) = litGeometries_spec st"
  "queryInRange (st\<lparr>mainLight := main\<rparr>) = queryInRange st"
  by (simp_all add: fun_eq_iff litGeometries_spec_def queryInRange_def
               split: LightType.splits)

lemma AllocateLightData_eq:
  "AllocateLightData lights cached lightsData =
     ((\<lambda>light. if light \<in> set lights then Some [] else cached light), lightsData @ lights)"
  by (induction lights arbitrary: cached lightsData) (auto simp: fun_eq_iff)

lemma ProcessLights_eq:
  assumes "\<forall>light \<in> set lights. cached light \<noteq> None"
  shows "ProcessLights st lights lights cached =
     (if \<forall>light \<in> set lights. queryInRange st light
      then Inr (\<lambda>light.
             if light \<in> set lights
             then Some (the (cached light)
                        @ concat (replicate (count_list lights light)
                                    (litGeometries_spec st light)))
             else cached light)
      else Inl OutOfRange)"
  using assms
proof (induction lights arbitrary: cached)
  case Nil
  show ?case by simp
next
  case (Cons light rest)
  from Cons.prems obtain lit where slot: "cached light = Some lit" by auto
  show ?case
  proof (cases "queryInRange st light")
    case False
    with slot show ?thesis by (simp add: CollectLitGeometries_eq)
  next
    case True
    define cached1 where "cached1 = cached(light \<mapsto> lit @ litGeometries_spec st light)"
    have step: "ProcessLights st (light # rest) (light # rest) cached
                  = ProcessLights st rest rest cached1"
      using slot True by (simp add: CollectLitGeometries_eq cached1_def)
    have "\<forall>other \<in> set rest. cached1 other \<noteq> None"
      using Cons.prems by (simp add: cached1_def)
    note IH = Cons.IH [OF this]
    show ?thesis
    proof (cases "\<forall>other \<in> set rest. queryInRange st other")
      case False
      with IH have "ProcessLights st rest rest cached1 = Inl OutOfRange" by simp
      with False show ?thesis unfolding step by simp
    next
      case inrange: True
      have same: "(\<lambda>other. if other \<in> set rest
                then Some (the (cached1 other)
                           @ concat (replicate (count_list rest other)
                                       (litGeometries_spec st other)))
                else cached1 other)
            = (\<lambda>other. if other \<in> set (light # rest)
                then Some (the (cached other)
                           @ concat (replicate (count_list (light # rest) other)
                                       (litGeometries_spec st other)))
                else cached other)"
        using slot by (auto simp: fun_eq_iff count_list_0_iff cached1_def)
      from inrange IH have "ProcessLights st rest rest cached1 =
          Inr (\<lambda>other. if other \<in> set rest
                then Some (the (cached1 other)
                           @ concat (replicate (count_list rest other)
                                       (litGeometries_spec st other)))
                else cached1 other)"
        by simp
      then have "ProcessLights st rest rest cached1 =
          Inr (\<lambda>other. if other \<in> set (light # rest)
                then Some (the (cached other)
                           @ concat (replicate (count_list (light # rest) other)
                                       (litGeometries_spec st other)))
                else cached other)"
        unfolding same .
      with True inrange show ?thesis unfolding step by simp
    qed
  qed
qed

lemma ProcessVisibleLights_eq:
  "ProcessVisibleLights st =
     (if \<forall>light \<in> set (visibleLights st). queryInRange st light
      then Inr (st\<lparr>mainLight := FindMainLight (visibleLights st),
                   cachedLightData :=
                     (\<lambda>light.
                        if light \<in> set (visibleLights st)
                        then Some (concat (replicate (count_list (visibleLights st) light)
                                             (litGeometries_spec st light)))
                        else cachedLightData st light),
                   visibleLightsData := visibleLights st\<rparr>)
      else Inl OutOfRange)"
proof -
  let ?st1 = "st\<lparr>mainLight := FindMainLight (visibleLights st)\<rparr>"
  define cached0 where
    "cached0 = (\<lambda>light. if light \<in> set (visibleLights st) then Some []
                         else cachedLightData st light)"
  define result where
    "result = (\<lambda>light. if light \<in> set (visibleLights st)
                 then Some (concat (replicate (count_list (visibleLights st) light)
                                      (litGeometries_spec st light)))
                 else cachedLightData st light)"
  have alloc: "AllocateLightData (visibleLights st) (cachedLightData st) []
                 = (cached0, visibleLights st)"
    by (simp add: AllocateLightData_eq cached0_def)
  have run: "ProcessVisibleLights st =
          (case ProcessLights ?st1 (visibleLights st) (visibleLights st) cached0 of
             Inl e \<Rightarrow> Inl e
           | Inr cached' \<Rightarrow>
               Inr (?st1\<lparr>cachedLightData := cached', visibleLightsData := visibleLights st\<rparr>))"
    by (simp add: ProcessVisibleLights_def alloc Let_def)
  have "\<forall>light \<in> set (visibleLights st). cached0 light \<noteq> None"
    by (simp add: cached0_def)
  from ProcessLights_eq [OF this, of ?st1]
  have loop: "ProcessLights ?st1 (visibleLights st) (visibleLights st) cached0 =
     (if \<forall>light \<in> set (visibleLights st). queryInRange st light
      then Inr (\<lambda>light.
             if light \<in> set (visibleLights st)
             then Some (the (cached0 light)
                        @ concat (replicate (count_list (visibleLights st) light)
                                    (litGeometries_spec st light)))
             else cached0 light)
      else Inl OutOfRange)"
    unfolding litGeometries_spec_mainLight .
  have "(\<lambda>light.
             if light \<in> set (visibleLights st)
             then Some (the (cached0 light)
                        @ concat (replicate (count_list (visibleLights st) light)
                                    (litGeometries_spec st light)))
             else cached0 light) = result"
    by (auto simp: fun_eq_iff cached0_def result_def)
  with loop have "ProcessLights ?st1 (visibleLights st) (visibleLights st) cached0 =
     (if \<forall>light \<in> set (visibleLights st). queryInRange st light then Inr result
      else Inl OutOfRange)"
    by simp
  then show ?thesis
    unfolding run result_def by simp
qed

text \<open>
  Claim C6. Let every query of a visible light be in range (reading a trait past the end
  of the table is undefined in the source). Then \<^verbatim>\<open>ProcessVisibleLights\<close> returns,
  leaves the trait table and \<^verbatim>\<open>visibleGeometries_\<close> as they are, and the lit-geometry
  list it produces for a visible light, the \<^verbatim>\<open>litGeometries_\<close> of the light's cached
  \<^verbatim>\<open>LightData\<close>, contains exactly: for a directional light, the drawables of
  \<^verbatim>\<open>visibleGeometries_\<close> (the drawables that source-batch collection classified as
  visible geometry, which by the section on the trait table are the drawables that carry
  the visible-geometry trait) whose light mask meets the light's mask, without consulting
  the octree; for a spot light, the result of the frustum containment query, and for a
  point light of the sphere containment query: of the drawables the octree offers for the
  volume, those that carry the visible-geometry trait, whose light mask meets the light's
  effective mask, and that are inside the volume. When the visible lights are distinct
  the list is that list itself, in order; a light that stands several times among the
  visible lights gets the same list that many times over.
\<close>

theorem ProcessVisibleLights_litGeometries:
  assumes visible: "light \<in> set (visibleLights st)"
    and inrange: "\<forall>other \<in> set (visibleLights st). queryInRange st other"
  shows "\<exists>st' lit. ProcessVisibleLights st = Inr st'
           \<and> visibleGeometries st' = visibleGeometries st \<and> traits st' = traits st
           \<and> cachedLightData st' light = Some lit
           \<and> lit = concat (replicate (count_list (visibleLights st) light)
                             (litGeometries_spec st light))
           \<and> set lit = set (litGeometries_spec st light)
           \<and> (distinct (visibleLights st) \<longrightarrow> lit = litGeometries_spec st light)"
proof -
  let ?n = "count_list (visibleLights st) light"
  let ?lit = "concat (replicate ?n (litGeometries_spec st light))"
  from visible have pos: "?n > 0" by (metis count_list_0_iff gr0I)
  then have set: "set ?lit = set (litGeometries_spec st light)" by auto
  have once: "distinct (visibleLights st) \<Longrightarrow> ?n = 1"
    using visible by (simp add: count_list_distinct)
  then have "distinct (visibleLights st) \<longrightarrow> ?lit = litGeometries_spec st light" by auto
  with visible inrange set show ?thesis
    by (simp add: ProcessVisibleLights_eq)
qed

text \<open>The theorem in \<open>lightsState\<close>, where \<open>nearGeometry\<close> is the one visible
  geometry, \<open>farGeometry\<close> is updated only, and a directional, a spot and a point
  light are visible. The sample octree offers both geometries to either query.\<close>

theorem ProcessVisibleLights_litGeometries_witness:
  "\<exists>st'. ProcessVisibleLights lightsState = Inr st'
     \<and> cachedLightData st' (sampleLight 2 LIGHT_DIRECTIONAL 1) = Some [nearGeometry]
     \<and> cachedLightData st' (sampleLight 3 LIGHT_SPOT 1) = Some [nearGeometry]
     \<and> cachedLightData st' (sampleLight 4 LIGHT_POINT 1) = Some [nearGeometry]"
proof -
  have lights: "visibleLights lightsState
      = [sampleLight 2 LIGHT_DIRECTIONAL 1, sampleLight 3 LIGHT_SPOT 1,
         sampleLight 4 LIGHT_POINT 1]"
    by (simp add: lightsState_def)
  have d: "distinct (visibleLights lightsState)"
    by (simp add: lights sampleLight_def)
  have inrange: "\<forall>other \<in> set (visibleLights lightsState). queryInRange lightsState other"
    by (simp add: lights queryInRange_def indicesInRange_def lightsState_def litState_def
                  frameStart_def InitializeFrame_def sampleFrame_def newCollector_def
                  sampleOctree_def sampleLight_def nearGeometry_def farGeometry_def
                  sampleGeometry_def Let_def)
  have spec: "litGeometries_spec lightsState (sampleLight 2 LIGHT_DIRECTIONAL 1) = [nearGeometry]"
    "litGeometries_spec lightsState (sampleLight 3 LIGHT_SPOT 1) = [nearGeometry]"
    "litGeometries_spec lightsState (sampleLight 4 LIGHT_POINT 1) = [nearGeometry]"
    by (simp_all add: litGeometries_spec_def isLitBy_def tv_Elements_def lightsState_def
                  litState_def frameStart_def InitializeFrame_def sampleFrame_def
                  newCollector_def sampleOctree_def sampleLight_def nearGeometry_def
                  farGeometry_def sampleGeometry_def DrawableVisibleGeometry_def Let_def)
  from ProcessVisibleLights_litGeometries [of "sampleLight 2 LIGHT_DIRECTIONAL 1" lightsState]
       ProcessVisibleLights_litGeometries [of "sampleLight 3 LIGHT_SPOT 1" lightsState]
       ProcessVisibleLights_litGeometries [of "sampleLight 4 LIGHT_POINT 1" lightsState]
       inrange d spec
  show ?thesis by (auto simp: lights)
qed

section \<open>Source batches\<close>

text \<open>
  A drawable beyond its draw distance, at the head of a thread's range: the iteration
  marks it updated and leaves the function. The state returned for the whole range is the
  state after this one trait update, whatever drawables follow in the range.
\<close>

lemma ProcessDrawable_too_far:
  assumes "drawDistance drawable > 0" and "distance drawable > drawDistance drawable"
    and "drawableIndex drawable < length (traits st)"
  shows "ProcessDrawable threadIndex drawable st =
           Inr (True, st\<lparr>traits := (traits st)[drawableIndex drawable :=
                           traits st ! drawableIndex drawable OR DrawableUpdated]\<rparr>)"
  using assms by (simp add: ProcessDrawable_def orTrait_def bind_err_def Let_def)

lemma too_far_drawable_ends_range:
  assumes "drawDistance drawable > 0" and "distance drawable > drawDistance drawable"
    and "drawableIndex drawable < length (traits st)"
  shows "UpdateAndCollectSourceBatchesForThread threadIndex (drawable # rest) st =
           Inr (st\<lparr>traits := (traits st)[drawableIndex drawable :=
                     traits st ! drawableIndex drawable OR DrawableUpdated]\<rparr>)"
  using assms by (simp add: ProcessDrawable_too_far)

lemma replicate_2: "replicate 2 x = [x, x]"
  by (simp add: numeral_2_eq_2)

text \<open>The sample collector at the start of the sample frame.\<close>

lemma frameStart_eval:
  "frameStart = newCollector\<lparr>numThreads := 1, materialQuality := 2, numDrawables := 2,
      visibleGeometries := [[]], visibleLightsTemp := [[]], traits := [0, 0]\<rparr>"
  by (simp add: frameStart_def InitializeFrame_def sampleFrame_def sampleOctree_def
                newCollector_def tv_Clear_def transient_Reset_def replicate_2 Let_def)

text \<open>
  Claim C1, evaluated at an input where it fails. One valid Unlit pass is configured and
  the drawables \<open>farGeometry\<close> (index 0, beyond its draw distance) and
  \<open>nearGeometry\<close> (index 1, no draw distance) are collected in one range. The far
  drawable is marked updated, is not classified and yields no batch, as the claim says.
  But the \<^verbatim>\<open>return\<close> under "Skip if too far" ends the range: the near drawable keeps
  the traits 0, is not recorded as visible geometry and yields no batch, where the claim
  has it fully processed. In the opposite order it is: updated, classified, one batch.
\<close>

theorem too_far_drawable_stops_collection:
  "(case bind_err (InitializePasses False samplePassIndex [unlitPass] frameStart)
           (UpdateAndCollectSourceBatches (inlineSchedule [farGeometry, nearGeometry])) of
      Inl e \<Rightarrow> False
    | Inr st \<Rightarrow>
        traits st = [DrawableUpdated, 0] \<and> visibleGeometries st = [[]]
        \<and> map unlitBatches (passes st) = [[[]]] \<and> map litBatches (passes st) = [[[]]])
   \<and> (case bind_err (InitializePasses False samplePassIndex [unlitPass] frameStart)
             (UpdateAndCollectSourceBatches (inlineSchedule [nearGeometry, farGeometry])) of
        Inl e \<Rightarrow> False
      | Inr st \<Rightarrow>
          traits st = [DrawableUpdated, DrawableUpdated OR DrawableVisibleGeometry]
          \<and> visibleGeometries st = [[nearGeometry]]
          \<and> map unlitBatches (passes st) =
              [[[\<lparr>isb_geometry = Some nearGeometry, isb_sourceBatchIndex = 0,
                   isb_basePass = Some 10, isb_additionalPass = None\<rparr>]]])"
  by (simp add: frameStart_eval InitializePasses_def resize_def newPassData_def IsValid_def
                CheckSubPasses_def M_MAX_UNSIGNED_def pd_Clear_def tv_Clear_def tv_Insert_def
                tv_Elements_def UpdateAndCollectSourceBatches_def inlineSchedule_def
                ProcessDrawable_def orTrait_def bind_err_def DrawableUpdated_def
                DrawableVisibleGeometry_def DRAWABLE_GEOMETRY_def FindTechnique_def
                FillPass_def GetPass_def CreateIntermediateSceneBatch_def Let_def
                samplePassIndex_def unlitPass_def newCollector_def sampleMaterial_def
                sampleTechnique_def farGeometry_def nearGeometry_def sampleGeometry_def)

text \<open>\<^verbatim>\<open>InitializePasses\<close> registers the base sub-pass of every description that
  names one, whether the pass is valid or not: nothing between the validity check and the
  registration loop depends on the outcome of the check.\<close>

lemma RegisterBaseBatches_keeps:
  "lookup k \<noteq> None \<Longrightarrow> RegisterBaseBatches i ps lookup k \<noteq> None"
  by (induction ps arbitrary: i lookup) (auto simp: Let_def)

lemma RegisterBaseBatches_unlit:
  "p \<in> set ps \<Longrightarrow> unlitBasePassIndex p \<noteq> M_MAX_UNSIGNED
    \<Longrightarrow> RegisterBaseBatches i ps lookup (unlitBasePassIndex p) \<noteq> None"
proof (induction ps arbitrary: i lookup)
  case Nil
  then show ?case by simp
next
  case (Cons q rest)
  show ?case
  proof (cases "p = q")
    case True
    let ?lookup1 = "lookup(unlitBasePassIndex q \<mapsto> UnlitBaseSceneBatchesOf i)"
    let ?lookup2 = "if litBasePassIndex q \<noteq> M_MAX_UNSIGNED
                    then ?lookup1(litBasePassIndex q \<mapsto> LitBaseSceneBatchesOf i)
                    else ?lookup1"
    have "?lookup2 (unlitBasePassIndex q) \<noteq> None" by simp
    then have "RegisterBaseBatches (Suc i) rest ?lookup2 (unlitBasePassIndex q) \<noteq> None"
      by (rule RegisterBaseBatches_keeps)
    with True Cons.prems show ?thesis by (simp add: Let_def)
  next
    case False
    with Cons.prems have "p \<in> set rest" by simp
    with Cons.IH Cons.prems show ?thesis by (simp add: Let_def)
  qed
qed

lemma InitializePassesLoop_indices:
  "InitializePassesLoop False GetPassIndex n ds ps = Inr ps' \<Longrightarrow> length ps = length ds
    \<Longrightarrow> map unlitBasePassIndex ps' = map (\<lambda>d. GetPassIndex (unlitBasePassName d)) ds"
proof (induction ds arbitrary: ps ps')
  case Nil
  then show ?case by simp
next
  case (Cons d rest)
  then obtain p ps0 where ps: "ps = p # ps0" by (cases ps) auto
  with Cons.prems Cons.IH [of ps0] show ?case
    by (auto simp: Let_def pd_Clear_def split: if_splits sum.splits)
qed

lemma InitializePasses_registers_any_pass:
  assumes init: "InitializePasses False GetPassIndex descs st = Inr st'"
    and d: "d \<in> set descs"
    and named: "GetPassIndex (unlitBasePassName d) \<noteq> M_MAX_UNSIGNED"
  shows "baseBatchesLookup st' (GetPassIndex (unlitBasePassName d)) \<noteq> None"
proof -
  let ?ps0 = "resize (length descs) newPassData (passes st)"
  from init obtain ps where
      loop: "InitializePassesLoop False GetPassIndex (numThreads st) descs ?ps0 = Inr ps"
      and lookup: "baseBatchesLookup st' = RegisterBaseBatches 0 ps Map.empty"
    by (auto simp: InitializePasses_def split: sum.splits)
  have "length ?ps0 = length descs" by (simp add: resize_def)
  with loop have "map unlitBasePassIndex ps
                    = map (\<lambda>d. GetPassIndex (unlitBasePassName d)) descs"
    by (rule InitializePassesLoop_indices)
  moreover from d have "GetPassIndex (unlitBasePassName d)
                          \<in> set (map (\<lambda>d. GetPassIndex (unlitBasePassName d)) descs)"
    by auto
  ultimately obtain p where "p \<in> set ps"
      "unlitBasePassIndex p = GetPassIndex (unlitBasePassName d)"
    by (metis (no_types, lifting) imageE list.set_map)
  with named lookup RegisterBaseBatches_unlit [of p ps 0 Map.empty] show ?thesis by simp
qed

text \<open>
  Claim C2, evaluated at an input where it fails. \<open>invalidPass\<close> is an Unlit pass that
  names an additional-light sub-pass, which the validity rule refuses. In a build with
  assertions \<^verbatim>\<open>InitializePasses\<close> aborts on it. In a build without, nothing is reported
  and the \<^verbatim>\<open>continue\<close> skips only the clearing of the pass's intermediate batch lists:
  the pass stays in \<^verbatim>\<open>passes_\<close> and its base pass name is registered for lookup. When
  the pass was valid in the frame before, where it collected one batch, and is invalid in
  this frame, source-batch collection appends this frame's batch to the list that still
  holds the batch of the frame before. The claim has no batch inserted and no name
  registered.
\<close>

theorem invalid_pass_is_not_excluded:
  "InitializePasses True samplePassIndex [invalidPass] frameStart = Inl AssertionFailed
   \<and> (case InitializePasses False samplePassIndex [invalidPass] frameStart of
        Inl e \<Rightarrow> False
      | Inr st \<Rightarrow>
          map IsValid (passes st) = [False]
          \<and> baseBatchesLookup st (samplePassIndex ''base'') = Some (UnlitBaseSceneBatchesOf 0))
   \<and> (case bind_err (InitializePasses False samplePassIndex [unlitPass] frameStart) (\<lambda>st0.
             bind_err (UpdateAndCollectSourceBatches (inlineSchedule [nearGeometry]) st0) (\<lambda>st1.
             bind_err (InitializePasses False samplePassIndex [invalidPass]
                         (InitializeFrame sampleFrame [] st1))
               (UpdateAndCollectSourceBatches (inlineSchedule [nearGeometry])))) of
        Inl e \<Rightarrow> False
      | Inr st \<Rightarrow>
          map IsValid (passes st) = [False]
          \<and> baseBatchesLookup st (samplePassIndex ''base'') = Some (UnlitBaseSceneBatchesOf 0)
          \<and> map unlitBatches (passes st) =
              [[[\<lparr>isb_geometry = Some nearGeometry, isb_sourceBatchIndex = 0,
                   isb_basePass = Some 10, isb_additionalPass = None\<rparr>,
                  \<lparr>isb_geometry = Some nearGeometry, isb_sourceBatchIndex = 0,
                   isb_basePass = Some 10, isb_additionalPass = None\<rparr>]]])"
  by (simp add: frameStart_eval InitializeFrame_def InitializePasses_def resize_def
                newPassData_def IsValid_def CheckSubPasses_def M_MAX_UNSIGNED_def pd_Clear_def
                tv_Clear_def tv_Insert_def tv_Elements_def transient_Reset_def replicate_2
                UpdateAndCollectSourceBatches_def inlineSchedule_def ProcessDrawable_def
                orTrait_def bind_err_def DrawableUpdated_def DrawableVisibleGeometry_def
                DRAWABLE_GEOMETRY_def FindTechnique_def FillPass_def GetPass_def
                CreateIntermediateSceneBatch_def Let_def samplePassIndex_def unlitPass_def
                invalidPass_def newCollector_def sampleFrame_def sampleOctree_def
                sampleMaterial_def sampleTechnique_def nearGeometry_def sampleGeometry_def)

section \<open>Batch assembly\<close>

text \<open>
  Claim C8, evaluated at an input where it fails. One valid Unlit pass, the drawable
  \<open>nearGeometry\<close>, whose geometry has the live pipeline-state hash 1, and two calls of
  \<^verbatim>\<open>CollectSceneBatches\<close> with nothing run and no hash changed in between. The first
  call creates pipeline state 0 for the one batch. In the second call the lookup misses,
  because the entry's captured hashes were never set, the factory is invoked a second
  time, and the batch gets the new pipeline state 1: the batch lists of the two calls
  differ, where the claim has cache hits only and no pipeline state created.
\<close>

theorem second_CollectSceneBatches_creates_again:
  "(case bind_err (InitializePasses False samplePassIndex [unlitPass] frameStart) (\<lambda>st0.
           bind_err (UpdateAndCollectSourceBatches (inlineSchedule [nearGeometry]) st0) (\<lambda>st1.
           bind_err (CollectSceneBatches sampleLive inlineSchedule st1) (\<lambda>st2.
           bind_err (CollectSceneBatches sampleLive inlineSchedule st2) (\<lambda>st3.
             Inr (st2, st3))))) of
      Inl e \<Rightarrow> False
    | Inr (first, second) \<Rightarrow>
        map (\<lambda>p. map scb_pipelineState (unlitBaseSceneBatches p)) (passes first) = [[Some 0]]
        \<and> length (pipelineStateFactory first) = 1
        \<and> map (\<lambda>p. map scb_pipelineState (unlitBaseSceneBatches p)) (passes second) = [[Some 1]]
        \<and> length (pipelineStateFactory second) = 2
        \<and> map unlitBaseSceneBatches (passes second) \<noteq> map unlitBaseSceneBatches (passes first))"
  by (simp add: frameStart_eval InitializePasses_def resize_def
                newPassData_def IsValid_def CheckSubPasses_def M_MAX_UNSIGNED_def pd_Clear_def
                tv_Clear_def tv_Insert_def tv_Elements_def
                UpdateAndCollectSourceBatches_def inlineSchedule_def ProcessDrawable_def
                orTrait_def bind_err_def DrawableUpdated_def DrawableVisibleGeometry_def
                DRAWABLE_GEOMETRY_def FindTechnique_def FillPass_def GetPass_def
                CreateIntermediateSceneBatch_def Let_def samplePassIndex_def unlitPass_def
                newCollector_def sampleMaterial_def sampleTechnique_def nearGeometry_def
                sampleGeometry_def sampleLive_def
                GetPipelineState_def GetOrCreatePipelineState_def hashesDiffer_def newEntry_def
                CreatePipelineState_def KeyOfSceneBatch_def newSceneBatch_def AssembleBatch_def
                FillPipelineState_def CollectSceneBaseBatches_def CollectPassBatches_def
                CollectSceneBatches_def)

end
